theory Spec2Isabelle
  imports Complex_Main "HOL-Library.Log_Nat"
begin

section \<open>Data model of \<^verbatim>\<open>kivent/gamesystems.py\<close>\<close>

text \<open>
  Numbers are Python numbers used with \<open>+\<close>, \<open>-\<close>, \<open>*\<close>, comparison and \<open>math.fabs\<close>
  only. A number is the real number it denotes. Python's integer arithmetic is exact; its
  float arithmetic rounds the result of every \<open>+\<close>, \<open>-\<close> and \<open>*\<close> to a double. The functions
  that compute therefore take the rounding as their first argument \<open>rnd\<close> and apply it to
  the result of each such operation, in the source's order of evaluation: \<open>rnd\<close> is the
  identity for integer arithmetic and \<open>round_double\<close> (below) for float arithmetic.
  Unary minus, \<open>math.fabs\<close> and comparisons are exact in both. A two-element list
  property such as \<open>camera_pos\<close>, \<open>pos\<close>, \<open>size\<close> or \<open>map_size\<close> is a pair (index 0 is
  \<open>fst\<close>, index 1 is \<open>snd\<close>).

  A component payload is a dictionary from field names to numeric vectors (the only field
  the source reads is \<open>position\<close>); an entity is a dictionary from system ids to payloads.
\<close>

type_synonym vec = "real \<times> real"
type_synonym component = "string \<rightharpoonup> real list"
type_synonym entity = "string \<rightharpoonup> component"
type_synonym ref = nat

text \<open>
  Exceptions of the source as values. \<open>LookupError\<close> is the common base class of
  \<open>KeyError\<close> and \<open>IndexError\<close>: a failed subscript on \<open>gameworld.entities\<close>, on an entity,
  on a payload or on a position vector. \<open>ValueError\<close> is what \<open>list.remove\<close> raises for an
  absent element, \<open>AttributeError\<close> is an attribute read on \<open>None\<close>, \<open>TypeError\<close> is a call
  of an object that is not callable.
\<close>

datatype error = AttributeError | LookupError | ValueError | TypeError

text \<open>
  The model has one world object. The attribute \<open>gameworld\<close> of a system
  (\<open>ObjectProperty(None)\<close>) is \<open>None\<close> or a reference to that world.
\<close>

datatype world_ref = World

text \<open>Class \<open>GameSystem\<close>: its properties and the instance attribute \<open>entity_ids\<close>.\<close>

record gamesystem =
  system_id :: string
  updateable :: bool
  renderable :: bool
  paused :: bool
  active :: bool
  gameworld :: "world_ref option"
  viewport :: string
  entity_ids :: "nat list"

text \<open>Class \<open>GameMap(GameSystem)\<close>.\<close>

record gamemap = gamesystem +
  map_size :: vec

text \<open>
  What reading an attribute of an object can yield: a string, a vector, a number or
  \<open>None\<close>, a boolean, or a method bound to the object.
\<close>

datatype attr_value =
    StrVal string
  | VecVal vec
  | NumVal "nat option"
  | BoolVal bool
  | BoundMethod

text \<open>
  Class \<open>GameView(GameSystem)\<close>; \<open>pos\<close> and \<open>size_xy\<close> are the widget's \<open>pos\<close> and \<open>size\<close>,
  inherited from the toolkit's \<open>Widget\<close>. The fields up to \<open>force_camera_update\<close> are
  the properties of the class. \<open>lock_scroll_attr\<close> is the entry \<open>lock_scroll\<close> of the
  instance dictionary: \<open>None\<close> while nothing has been assigned to \<open>view.lock_scroll\<close>,
  otherwise the value assigned (see \<open>self_lock_scroll\<close> below for why the assignment
  lands there).
\<close>

record gameview = gamesystem +
  pos :: vec
  size_xy :: vec
  camera_pos :: vec
  do_scroll :: bool
  focus_entity :: bool
  entity_to_focus :: "nat option"
  focus_position_info_from :: string
  has_camera_updated :: bool
  force_camera_update :: bool
  lock_scroll_attr :: "attr_value option"

text \<open>
  The values of the dictionary \<open>gameworld.systems\<close>: a system of the base class, or a
  reference to a map object or to a view object. Maps and views are mutable objects
  that several places refer to (\<open>currentmap\<close>, \<open>systems\<close>, the \<open>self\<close> of a running
  method), so they live at addresses.
\<close>

datatype system_obj = SystemObj gamesystem | MapObj ref | ViewObj ref

text \<open>
  The store: the attributes of the world object that the source reads and writes
  (\<open>entities\<close>, \<open>systems\<close>, \<open>currentmap\<close>), the \<open>GameMap\<close> and \<open>GameView\<close> objects by
  address, the lines written by \<open>print\<close>, and a log of the \<open>update\<close> calls that
  \<open>on_camera_pos\<close> makes on the systems of the world (key and argument).
  \<open>systems\<close> is a dictionary that the source iterates: an association list of its items.
\<close>

record store =
  entities :: "nat \<rightharpoonup> entity"
  systems :: "(string \<times> system_obj) list"
  currentmap :: "ref option"
  map_heap :: "ref \<Rightarrow> gamemap"
  view_heap :: "ref \<Rightarrow> gameview"
  stdout :: "string list"
  update_calls :: "(string \<times> real option) list"

section \<open>GameSystem\<close>

text \<open>\<open>generate_component_data\<close>: the load hook, the identity in the base class.\<close>

definition generate_component_data :: "component \<Rightarrow> component" where
  "generate_component_data entity_component_dict = entity_component_dict"

text \<open>
  \<open>create_component\<close>: reads \<open>self.gameworld.entities[entity_id]\<close> (an error when there is
  no world or no such entity, raised before anything is written), stores the generated
  payload under \<open>self.system_id\<close> in that entity, and appends the id to \<open>entity_ids\<close>.
  There is no test for the id being present already.
\<close>

definition create_component ::
  "'a gamesystem_scheme \<Rightarrow> store \<Rightarrow> nat \<Rightarrow> component \<Rightarrow> error + 'a gamesystem_scheme \<times> store" where
  "create_component self st entity_id entity_component_dict =
     (case gameworld self of
        None \<Rightarrow> Inl AttributeError
      | Some _ \<Rightarrow>
          (case entities st entity_id of
             None \<Rightarrow> Inl LookupError
           | Some entity \<Rightarrow>
               Inr (self\<lparr>entity_ids := entity_ids self @ [entity_id]\<rparr>,
                    st\<lparr>entities := (entities st)(entity_id \<mapsto>
                          entity(system_id self \<mapsto> generate_component_data entity_component_dict))\<rparr>)))"

text \<open>
  Python's \<open>list.remove(x)\<close>: deletes the first item equal to \<open>x\<close>, and raises
  \<open>ValueError\<close>, leaving the list as it is, when there is none.
\<close>

fun list_remove :: "'a list \<Rightarrow> 'a \<Rightarrow> error + 'a list" where
  "list_remove [] x = Inl ValueError"
| "list_remove (y # ys) x =
     (if y = x then Inr ys
      else (case list_remove ys x of Inl e \<Rightarrow> Inl e | Inr zs \<Rightarrow> Inr (y # zs)))"

text \<open>\<open>remove_entity\<close>: \<open>self.entity_ids.remove(entity_id)\<close>, nothing else.\<close>

definition remove_entity :: "'a gamesystem_scheme \<Rightarrow> nat \<Rightarrow> error + 'a gamesystem_scheme" where
  "remove_entity self entity_id =
     (case list_remove (entity_ids self) entity_id of
        Inl e \<Rightarrow> Inl e
      | Inr ids \<Rightarrow> Inr (self\<lparr>entity_ids := ids\<rparr>))"

text \<open>
  \<open>update(dt)\<close> of the base class, which \<open>GameMap\<close> inherits, is \<open>pass\<close>: it changes
  nothing.
\<close>

definition GameSystem_update :: "real option \<Rightarrow> store \<Rightarrow> store" where
  "GameSystem_update dt st = st"

text \<open>The lifecycle hooks of the base class that write a flag.\<close>

definition on_remove_system :: "'a gamesystem_scheme \<Rightarrow> 'a gamesystem_scheme" where
  "on_remove_system self = self\<lparr>active := False\<rparr>"

definition on_add_system :: "'a gamesystem_scheme \<Rightarrow> 'a gamesystem_scheme" where
  "on_add_system self = self\<lparr>active := True\<rparr>"

text \<open>
  Sequencing of calls that can raise: the first error ends the computation, as the
  exception does. The methods of a view can moreover call each other without end; they
  return an option, \<open>None\<close> for a call that has not returned within the nesting depth it
  was given (see \<open>on_camera_pos\<close> below).
\<close>

definition result_bind :: "error + 'a \<Rightarrow> ('a \<Rightarrow> error + 'b) \<Rightarrow> error + 'b" where
  "result_bind m f = (case m of Inl e \<Rightarrow> Inl e | Inr x \<Rightarrow> f x)"

definition run_bind ::
  "(error + 'a) option \<Rightarrow> ('a \<Rightarrow> (error + 'b) option) \<Rightarrow> (error + 'b) option" where
  "run_bind m f = (case m of None \<Rightarrow> None | Some (Inl e) \<Rightarrow> Some (Inl e) | Some (Inr x) \<Rightarrow> f x)"

section \<open>GameMap\<close>

text \<open>
  The methods of a map act on the object at address \<open>self\<close>. \<open>on_add_system\<close> runs the base
  hook and then, if the map has a world, writes itself into the world's \<open>currentmap\<close>.
\<close>

definition GameMap_on_add_system :: "ref \<Rightarrow> store \<Rightarrow> store" where
  "GameMap_on_add_system self st =
     (let st1 = st\<lparr>map_heap := (map_heap st)(self := on_add_system (map_heap st self))\<rparr>
      in if gameworld (map_heap st1 self) \<noteq> None then st1\<lparr>currentmap := Some self\<rparr> else st1)"

text \<open>
  \<open>on_remove_system\<close> runs the base hook, then reads \<open>self.gameworld.currentmap\<close> with no
  test for a missing world, and clears the slot when it holds this very object.
\<close>

definition GameMap_on_remove_system :: "ref \<Rightarrow> store \<Rightarrow> error + store" where
  "GameMap_on_remove_system self st =
     (let st1 = st\<lparr>map_heap := (map_heap st)(self := on_remove_system (map_heap st self))\<rparr>
      in case gameworld (map_heap st1 self) of
           None \<Rightarrow> Inl AttributeError
         | Some _ \<Rightarrow> Inr (if currentmap st1 = Some self then st1\<lparr>currentmap := None\<rparr> else st1))"

section \<open>Float arithmetic\<close>

text \<open>
  Rounding of a real number to the nearest double (IEEE 754 binary64, ties to even): the
  result of every float \<open>+\<close>, \<open>-\<close> and \<open>*\<close>, and the value of a decimal literal. A double
  has a significand of 53 bits; \<open>exponent x\<close> is the integer \<open>e\<close> with
  \<open>2^e \<le> |x| < 2^(e+1)\<close>, computed from bit lengths; below \<open>2^-1022\<close> the spacing stays
  that of the subnormal numbers. Results beyond the largest finite double, infinities
  and NaN are not modelled.
\<close>

definition exponent :: "real \<Rightarrow> int" where
  "exponent x =
     (if \<bar>x\<bar> \<ge> 1 then bitlen \<lfloor>\<bar>x\<bar>\<rfloor> - 1 else - bitlen (\<lceil>1 / \<bar>x\<bar>\<rceil> - 1))"

definition pow2 :: "int \<Rightarrow> real" where
  "pow2 k = (if k \<ge> 0 then 2 ^ nat k else 1 / 2 ^ nat (- k))"

definition round_half_even :: "real \<Rightarrow> int" where
  "round_half_even r =
     (let f = \<lfloor>r\<rfloor>; d = r - of_int f
      in if d < 1 / 2 then f else if d > 1 / 2 then f + 1 else if even f then f else f + 1)"

definition round_double :: "real \<Rightarrow> real" where
  "round_double x =
     (if x = 0 then 0
      else (let q = pow2 (max (exponent x) (- 1022) - 52)
            in of_int (round_half_even (x / q)) * q))"

section \<open>GameView\<close>

subsection \<open>The class body and the attribute \<open>lock_scroll\<close>\<close>

text \<open>
  A class body is a sequence of statements, each binding a name in the class namespace:
  a property declaration or a \<open>def\<close>. Executing the body binds the names in order, a later
  binding of a name replacing an earlier one. \<open>GameView_body\<close> lists the statements of
  the body of \<open>GameView\<close> in source order.
\<close>

datatype class_attr =
    StringProperty string
  | ListProperty vec
  | NumericProperty "nat option"
  | BooleanProperty bool
  | Function

definition class_dict :: "(string \<times> class_attr) list \<Rightarrow> (string \<rightharpoonup> class_attr)" where
  "class_dict body = fold (\<lambda>(name, a) d. d(name \<mapsto> a)) body Map.empty"

definition GameView_body :: "(string \<times> class_attr) list" where
  "GameView_body =
     [(''system_id'', StringProperty ''default_gameview''),
      (''lock_scroll'', BooleanProperty True),
      (''camera_pos'', ListProperty (0, 0)),
      (''do_scroll'', BooleanProperty False),
      (''focus_entity'', BooleanProperty False),
      (''entity_to_focus'', NumericProperty None),
      (''focus_position_info_from'', StringProperty ''cymunk-physics''),
      (''updateable'', BooleanProperty True),
      (''paused'', BooleanProperty True),
      (''has_camera_updated'', BooleanProperty False),
      (''force_camera_update'', BooleanProperty False),
      (''on_entity_to_focus'', Function),
      (''update'', Function),
      (''on_size'', Function),
      (''on_camera_pos'', Function),
      (''on_touch_move'', Function),
      (''lock_scroll'', Function)]"

text \<open>
  The value of a property on an instance that never set it (its default), and Python's
  truth value of an attribute value.
\<close>

fun attr_read :: "class_attr \<Rightarrow> attr_value" where
  "attr_read (StringProperty s) = StrVal s"
| "attr_read (ListProperty v) = VecVal v"
| "attr_read (NumericProperty n) = NumVal n"
| "attr_read (BooleanProperty b) = BoolVal b"
| "attr_read Function = BoundMethod"

fun truthy :: "attr_value \<Rightarrow> bool" where
  "truthy (StrVal s) = (s \<noteq> [])"
| "truthy (VecVal v) = True"
| "truthy (NumVal n) = (n \<noteq> None \<and> n \<noteq> Some 0)"
| "truthy (BoolVal b) = b"
| "truthy BoundMethod = True"

text \<open>
  The read \<open>self.lock_scroll\<close>, by Python's lookup order. A property in the class
  namespace is a data descriptor and answers the read itself. A function there is not:
  the instance dictionary is consulted first (an assignment \<open>view.lock_scroll = x\<close> is
  stored there), and only when it has no entry does the read yield the method, bound to
  the instance.
\<close>

definition self_lock_scroll :: "gameview \<Rightarrow> error + attr_value" where
  "self_lock_scroll self =
     (case class_dict GameView_body ''lock_scroll'' of
        Some Function \<Rightarrow>
          (case lock_scroll_attr self of Some a \<Rightarrow> Inr a | None \<Rightarrow> Inr BoundMethod)
      | Some property \<Rightarrow> Inr (attr_read property)
      | None \<Rightarrow>
          (case lock_scroll_attr self of Some a \<Rightarrow> Inr a | None \<Rightarrow> Inl AttributeError))"

subsection \<open>The clamp function\<close>

text \<open>
  The method \<open>lock_scroll(distance_x, distance_y)\<close>. It reads
  \<open>self.gameworld.currentmap.map_size\<close> with no test for a missing world or map.
  \<open>a + b + c\<close> is \<open>(a + b) + c\<close> and \<open>a + b - c - d\<close> is \<open>((a + b) - c) - d\<close>.
\<close>

definition lock_scroll :: "(real \<Rightarrow> real) \<Rightarrow> gameview \<Rightarrow> store \<Rightarrow> vec \<Rightarrow> error + vec" where
  "lock_scroll rnd self st distance =
     (case gameworld self of
        None \<Rightarrow> Inl AttributeError
      | Some _ \<Rightarrow>
          (case currentmap st of
             None \<Rightarrow> Inl AttributeError
           | Some m \<Rightarrow>
               (let camera_pos = camera_pos self;
                    map_size = map_size (map_heap st m);
                    size = size_xy self;
                    pos = pos self;
                    distance_x = fst distance;
                    distance_y = snd distance;
                    distance_x =
                      (if rnd (fst camera_pos + distance_x) > fst pos
                       then rnd (fst pos - fst camera_pos)
                       else if rnd (rnd (fst camera_pos + fst map_size) + distance_x)
                               \<le> rnd (fst pos + fst size)
                       then rnd (rnd (rnd (fst pos + fst size) - fst camera_pos) - fst map_size)
                       else distance_x);
                    distance_y =
                      (if rnd (snd camera_pos + distance_y) > snd pos
                       then rnd (snd pos - snd camera_pos)
                       else if rnd (rnd (snd camera_pos + snd map_size) + distance_y)
                               \<le> rnd (snd pos + snd size)
                       then rnd (rnd (rnd (snd pos + snd size) - snd camera_pos) - snd map_size)
                       else distance_y)
                in Inr (distance_x, distance_y))))"

text \<open>
  The call \<open>self.lock_scroll(dist_x, dist_y)\<close>: the clamp function when the attribute is the
  method, a \<open>TypeError\<close> when it is a value that cannot be called.
\<close>

definition call_self_lock_scroll ::
  "(real \<Rightarrow> real) \<Rightarrow> gameview \<Rightarrow> store \<Rightarrow> vec \<Rightarrow> error + vec" where
  "call_self_lock_scroll rnd self st distance =
     result_bind (self_lock_scroll self)
       (\<lambda>a. case a of BoundMethod \<Rightarrow> lock_scroll rnd self st distance | _ \<Rightarrow> Inl TypeError)"

text \<open>
  The two lines of \<open>update\<close>
  \<^verbatim>\<open>if self.lock_scroll: dist_x, dist_y = self.lock_scroll(dist_x, dist_y)\<close>.
\<close>

definition clamp_if_locked ::
  "(real \<Rightarrow> real) \<Rightarrow> gameview \<Rightarrow> store \<Rightarrow> vec \<Rightarrow> error + vec" where
  "clamp_if_locked rnd self st distance =
     result_bind (self_lock_scroll self) (\<lambda>guard.
       if truthy guard then call_self_lock_scroll rnd self st distance else Inr distance)"

text \<open>
  The condition \<open>self.lock_scroll and self.gameworld.currentmap\<close>: the right operand is
  evaluated only when the left one is true. A map object is true, \<open>None\<close> is false.
\<close>

definition lock_scroll_and_currentmap :: "gameview \<Rightarrow> store \<Rightarrow> error + bool" where
  "lock_scroll_and_currentmap self st =
     result_bind (self_lock_scroll self) (\<lambda>guard.
       if truthy guard then
         (case gameworld self of
            None \<Rightarrow> Inl AttributeError
          | Some _ \<Rightarrow> Inr (currentmap st \<noteq> None))
       else Inr False)"

subsection \<open>Focus\<close>

definition on_entity_to_focus :: "gameview \<Rightarrow> nat option \<Rightarrow> gameview" where
  "on_entity_to_focus self v =
     (if \<not> (v = None) then self\<lparr>focus_entity := True\<rparr> else self\<lparr>focus_entity := False\<rparr>)"

text \<open>
  The reads at the start of \<open>update\<close>:
  \<open>self.gameworld.entities[entity_to_focus][self.focus_position_info_from]['position']\<close>
  and its items 0 and 1. Each failed subscript is a \<open>LookupError\<close>, a missing world an
  \<open>AttributeError\<close>.
\<close>

definition focus_position :: "gameview \<Rightarrow> store \<Rightarrow> error + vec" where
  "focus_position self st =
     (case gameworld self of
        None \<Rightarrow> Inl AttributeError
      | Some _ \<Rightarrow>
          (case entity_to_focus self of
             None \<Rightarrow> Inl LookupError
           | Some i \<Rightarrow>
               (case entities st i of
                  None \<Rightarrow> Inl LookupError
                | Some entity \<Rightarrow>
                    (case entity (focus_position_info_from self) of
                       None \<Rightarrow> Inl LookupError
                     | Some data \<Rightarrow>
                         (case data ''position'' of
                            None \<Rightarrow> Inl LookupError
                          | Some position_data \<Rightarrow>
                              (case position_data of
                                 x # y # _ \<Rightarrow> Inr (x, y)
                               | _ \<Rightarrow> Inl LookupError))))))"

text \<open>
  The re-centering delta of \<open>update\<close>:
  \<^verbatim>\<open>-camera_pos[i] - position_data[i] + size[i]*.5\<close>, that is
  \<open>((-c) - p) + (s * .5)\<close>.
\<close>

definition focus_distance :: "(real \<Rightarrow> real) \<Rightarrow> gameview \<Rightarrow> vec \<Rightarrow> vec" where
  "focus_distance rnd self position_data =
     (let camera_pos = camera_pos self;
          size = size_xy self;
          dist_x = rnd (rnd (- fst camera_pos - fst position_data) + rnd (fst size * (1 / 2)));
          dist_y = rnd (rnd (- snd camera_pos - snd position_data) + rnd (snd size * (1 / 2)))
      in (dist_x, dist_y))"

subsection \<open>Camera changes, the forced update of the renderable systems, and \<open>update\<close>\<close>

text \<open>
  The flags \<open>renderable\<close> and \<open>active\<close> of a value of \<open>gameworld.systems\<close>, read from the
  object it stands for.
\<close>

definition renderable_of :: "store \<Rightarrow> system_obj \<Rightarrow> bool" where
  "renderable_of st obj =
     (case obj of
        SystemObj s \<Rightarrow> renderable s
      | MapObj m \<Rightarrow> renderable (map_heap st m)
      | ViewObj v \<Rightarrow> renderable (view_heap st v))"

definition active_of :: "store \<Rightarrow> system_obj \<Rightarrow> bool" where
  "active_of st obj =
     (case obj of
        SystemObj s \<Rightarrow> active s
      | MapObj m \<Rightarrow> active (map_heap st m)
      | ViewObj v \<Rightarrow> active (view_heap st v))"

text \<open>
  Four pieces of the class call each other:
  \<^item> \<open>on_camera_pos\<close>, the observer of \<open>camera_pos\<close>. \<open>print\<close> appends a line to \<open>stdout\<close>.
    The guard \<open>has_camera_updated\<close> is set after the loop has ended.
  \<^item> \<open>update_renderables\<close>, the loop of \<open>on_camera_pos\<close> over \<open>gameworld.systems\<close>: every
    system that is renderable and active gets \<open>update(None)\<close>, which is the method of its
    own class: \<open>pass\<close> for a base system or a map, \<open>GameView.update\<close> for a view (the view
    that is running \<open>on_camera_pos\<close> included). The call is entered in \<open>update_calls\<close>.
  \<^item> \<open>camera_pos_iadd\<close>, the statements \<open>self.camera_pos[0] += d\<close> and
    \<open>self.camera_pos[1] += d\<close>. \<open>camera_pos\<close> is an observable list property of the
    toolkit: an item assignment notifies the observers of the property, here
    \<open>on_camera_pos\<close>, before the next statement runs.
  \<^item> \<open>GameView_update\<close>, the method \<open>update(dt)\<close> of the view; \<open>dt\<close> is not read.

  The nesting of these calls need not end. \<open>depth\<close> is the number of nested calls of
  \<open>update\<close> from inside the loop that a run may still make; a run that needs more has the
  result \<open>None\<close>. (The interpreter ends such a run when its recursion limit is reached.)
\<close>

function (sequential) on_camera_pos :: "(real \<Rightarrow> real) \<Rightarrow> nat \<Rightarrow> ref \<Rightarrow> store \<Rightarrow> (error + store) option"
  and update_renderables ::
    "(real \<Rightarrow> real) \<Rightarrow> nat \<Rightarrow> (string \<times> system_obj) list \<Rightarrow> store \<Rightarrow> (error + store) option"
  and camera_pos_iadd ::
    "(real \<Rightarrow> real) \<Rightarrow> nat \<Rightarrow> nat \<Rightarrow> real \<Rightarrow> ref \<Rightarrow> store \<Rightarrow> (error + store) option"
  and GameView_update ::
    "(real \<Rightarrow> real) \<Rightarrow> nat \<Rightarrow> ref \<Rightarrow> real option \<Rightarrow> store \<Rightarrow> (error + store) option"
  where
  "on_camera_pos rnd depth self st =
     (if force_camera_update (view_heap st self) then
        if \<not> has_camera_updated (view_heap st self) then
          (let st = st\<lparr>stdout := stdout st @ [''camera updating'']\<rparr>
           in case gameworld (view_heap st self) of
                None \<Rightarrow> Some (Inl AttributeError)
              | Some _ \<Rightarrow>
                  run_bind (update_renderables rnd depth (systems st) st) (\<lambda>st.
                    Some (Inr (st\<lparr>view_heap := (view_heap st)
                      (self := (view_heap st self)\<lparr>has_camera_updated := True\<rparr>)\<rparr>))))
        else Some (Inr (st\<lparr>view_heap := (view_heap st)
               (self := (view_heap st self)\<lparr>has_camera_updated := False\<rparr>)\<rparr>))
      else Some (Inr st))"
| "update_renderables rnd depth [] st = Some (Inr st)"
| "update_renderables rnd depth ((system, obj) # rest) st =
     (if renderable_of st obj \<and> active_of st obj then
        run_bind
          (let st = st\<lparr>update_calls := update_calls st @ [(system, None)]\<rparr>
           in case obj of
                ViewObj v \<Rightarrow>
                  (case depth of
                     0 \<Rightarrow> None
                   | Suc d \<Rightarrow> GameView_update rnd d v None st)
              | _ \<Rightarrow> Some (Inr (GameSystem_update None st)))
          (\<lambda>st. update_renderables rnd depth rest st)
      else update_renderables rnd depth rest st)"
| "camera_pos_iadd rnd depth i d self st =
     (let camera_pos = camera_pos (view_heap st self);
          camera_pos =
            (if i = 0 then (rnd (fst camera_pos + d), snd camera_pos)
             else (fst camera_pos, rnd (snd camera_pos + d)))
      in on_camera_pos rnd depth self
           (st\<lparr>view_heap := (view_heap st)
              (self := (view_heap st self)\<lparr>camera_pos := camera_pos\<rparr>)\<rparr>))"
| "GameView_update rnd depth self dt st =
     (if focus_entity (view_heap st self) then
        (case focus_position (view_heap st self) st of
           Inl e \<Rightarrow> Some (Inl e)
         | Inr position_data \<Rightarrow>
             (case clamp_if_locked rnd (view_heap st self) st
                     (focus_distance rnd (view_heap st self) position_data) of
                Inl e \<Rightarrow> Some (Inl e)
              | Inr (dist_x, dist_y) \<Rightarrow>
                  if rnd (\<bar>dist_x\<bar> + \<bar>dist_y\<bar>) \<ge> 1 then
                    run_bind (camera_pos_iadd rnd depth 0 dist_x self st)
                      (\<lambda>st. camera_pos_iadd rnd depth 1 dist_y self st)
                  else Some (Inr st)))
      else Some (Inr st))"

  by pat_completeness auto
termination
  by (relation "inv_image (less_than <*lex*> less_than <*lex*> less_than)
        (\<lambda>x. case x of
           Inl (Inl (rnd, depth, self, st)) \<Rightarrow> (depth, 1, 0)
         | Inl (Inr (rnd, depth, sys, st)) \<Rightarrow> (depth, 0, length sys)
         | Inr (Inl (rnd, depth, i, d, self, st)) \<Rightarrow> (depth, 2, 0)
         | Inr (Inr (rnd, depth, self, dt, st)) \<Rightarrow> (depth, 3, 0))")
    auto

text \<open>\<open>on_size\<close>, the observer of the widget's size (already set when it runs).\<close>

definition on_size :: "(real \<Rightarrow> real) \<Rightarrow> nat \<Rightarrow> ref \<Rightarrow> store \<Rightarrow> (error + store) option" where
  "on_size rnd depth self st =
     (case lock_scroll_and_currentmap (view_heap st self) st of
        Inl e \<Rightarrow> Some (Inl e)
      | Inr c \<Rightarrow>
          if c then
            (case call_self_lock_scroll rnd (view_heap st self) st (0, 0) of
               Inl e \<Rightarrow> Some (Inl e)
             | Inr (dist_x, dist_y) \<Rightarrow>
                 run_bind (camera_pos_iadd rnd depth 0 dist_x self st)
                   (\<lambda>st. camera_pos_iadd rnd depth 1 dist_y self st))
          else Some (Inr st))"

text \<open>\<open>on_touch_move(touch)\<close>; the argument is \<open>(touch.dx, touch.dy)\<close>.\<close>

definition on_touch_move ::
  "(real \<Rightarrow> real) \<Rightarrow> nat \<Rightarrow> ref \<Rightarrow> vec \<Rightarrow> store \<Rightarrow> (error + store) option" where
  "on_touch_move rnd depth self touch st =
     (if do_scroll (view_heap st self) then
        (let st = st\<lparr>stdout := stdout st @ [''doing scroll'']\<rparr>;
             dist_x = fst touch;
             dist_y = snd touch
         in if rnd (\<bar>dist_x\<bar> + \<bar>dist_y\<bar>) > 2 then
              (case lock_scroll_and_currentmap (view_heap st self) st of
                 Inl e \<Rightarrow> Some (Inl e)
               | Inr c \<Rightarrow>
                   (case (if c then call_self_lock_scroll rnd (view_heap st self) st (dist_x, dist_y)
                          else Inr (dist_x, dist_y)) of
                      Inl e \<Rightarrow> Some (Inl e)
                    | Inr (dist_x, dist_y) \<Rightarrow>
                        run_bind (camera_pos_iadd rnd depth 0 dist_x self st)
                          (\<lambda>st. camera_pos_iadd rnd depth 1 dist_y self st)))
            else Some (Inr st))
      else Some (Inr st))"

section \<open>Sequences of calls\<close>

text \<open>
  A caller issuing \<open>create_component\<close> and \<open>remove_entity\<close> calls on one system. Both
  methods raise before they write anything (the failing subscript of \<open>create_component\<close>
  precedes its two assignments, and \<open>list.remove\<close> leaves the list alone when it raises),
  so the state after a call that raised is the state before it.
\<close>

datatype call = Create nat component | Remove nat

fun do_call :: "call \<Rightarrow> 'a gamesystem_scheme \<times> store \<Rightarrow> error + 'a gamesystem_scheme \<times> store" where
  "do_call (Create entity_id d) (self, st) = create_component self st entity_id d"
| "do_call (Remove entity_id) (self, st) =
     (case remove_entity self entity_id of Inl e \<Rightarrow> Inl e | Inr self' \<Rightarrow> Inr (self', st))"

definition after_call :: "call \<Rightarrow> 'a gamesystem_scheme \<times> store \<Rightarrow> 'a gamesystem_scheme \<times> store" where
  "after_call c s = (case do_call c s of Inl e \<Rightarrow> s | Inr s' \<Rightarrow> s')"

text \<open>The states after the first, the second, ... call of a sequence.\<close>

fun states_after ::
  "call list \<Rightarrow> 'a gamesystem_scheme \<times> store \<Rightarrow> ('a gamesystem_scheme \<times> store) list" where
  "states_after [] s = []"
| "states_after (c # cs) s = after_call c s # states_after cs (after_call c s)"

text \<open>
  The contract on a sequence: a create is issued only for an id that is not in
  \<open>entity_ids\<close> at that moment, a remove only for one that is.
\<close>

fun respects_contract :: "call list \<Rightarrow> 'a gamesystem_scheme \<times> store \<Rightarrow> bool" where
  "respects_contract [] s = True"
| "respects_contract (Create entity_id d # cs) s =
     (entity_id \<notin> set (entity_ids (fst s)) \<and> respects_contract cs (after_call (Create entity_id d) s))"
| "respects_contract (Remove entity_id # cs) s =
     (entity_id \<in> set (entity_ids (fst s)) \<and> respects_contract cs (after_call (Remove entity_id) s))"

text \<open>
  A sequence of mutations of \<open>camera_pos\<close> of the view at \<open>self\<close>, each an item assignment
  \<open>camera_pos[i] += d\<close> given as \<open>(i, d)\<close>.
\<close>

fun camera_mutations ::
  "(real \<Rightarrow> real) \<Rightarrow> nat \<Rightarrow> (nat \<times> real) list \<Rightarrow> ref \<Rightarrow> store \<Rightarrow> (error + store) option" where
  "camera_mutations rnd depth [] self st = Some (Inr st)"
| "camera_mutations rnd depth ((i, d) # ms) self st =
     run_bind (camera_pos_iadd rnd depth i d self st)
       (\<lambda>st. camera_mutations rnd depth ms self st)"

section \<open>Notions used in the statements\<close>

text \<open>
  The entries that one run of the loop of \<open>on_camera_pos\<close> adds to \<open>update_calls\<close> when it
  starts in \<open>st\<close> and no call changes a flag: one for each renderable and active system.
\<close>

definition renderable_active :: "store \<Rightarrow> (string \<times> real option) list" where
  "renderable_active st =
     map (\<lambda>(system, obj). (system, None))
       (filter (\<lambda>(system, obj). renderable_of st obj \<and> active_of st obj) (systems st))"

text \<open>
  No view is among the renderable and active systems of the world: the loop of
  \<open>on_camera_pos\<close> then reaches base systems and maps only.
\<close>

definition is_view :: "system_obj \<Rightarrow> bool" where
  "is_view obj = (case obj of ViewObj v \<Rightarrow> True | _ \<Rightarrow> False)"

definition no_view_rendered :: "store \<Rightarrow> bool" where
  "no_view_rendered st =
     list_all (\<lambda>(system, obj). \<not> (is_view obj \<and> renderable_of st obj \<and> active_of st obj))
       (systems st)"

text \<open>
  How many of \<open>n\<close> successive calls of \<open>on_camera_pos\<close> run the loop, when the first of
  them finds \<open>has_camera_updated\<close> equal to \<open>guard\<close> and \<open>force_camera_update\<close> is set.
\<close>

definition cascades :: "bool \<Rightarrow> nat \<Rightarrow> nat" where
  "cascades guard n = (if guard then n div 2 else (n + 1) div 2)"

text \<open>
  The arithmetic leaves integers of magnitude up to \<open>2^53\<close> as they are. Integer
  arithmetic and float arithmetic both do.
\<close>

definition exact_on_integers :: "(real \<Rightarrow> real) \<Rightarrow> bool" where
  "exact_on_integers rnd \<longleftrightarrow> (\<forall>n::int. \<bar>n\<bar> \<le> 2 ^ 53 \<longrightarrow> rnd (of_int n) = of_int n)"

text \<open>
  The sums and differences that \<open>lock_scroll(0, 0)\<close> computes on one axis from the camera
  coordinate \<open>c\<close>, the map extent \<open>m\<close>, the view origin \<open>p\<close> and the view extent \<open>s\<close> are
  exact: none of them is changed by rounding.
\<close>

definition exact_sums :: "(real \<Rightarrow> real) \<Rightarrow> real \<Rightarrow> real \<Rightarrow> real \<Rightarrow> real \<Rightarrow> bool" where
  "exact_sums rnd c m p s \<longleftrightarrow>
     rnd 0 = 0 \<and> rnd c = c \<and> rnd (c + m) = c + m \<and> rnd (p + s) = p + s \<and>
     rnd (p + s - c) = p + s - c"

text \<open>
  The camera of the view at \<open>self\<close> in the store that a run returns.
\<close>

definition camera_after :: "ref \<Rightarrow> (error + store) option \<Rightarrow> (error + vec) option" where
  "camera_after self r = map_option (map_sum id (\<lambda>st. camera_pos (view_heap st self))) r"

section \<open>Example objects\<close>

text \<open>
  Objects with the default property values of their classes, attached to the world:
  a base system, a map of size 1500 by 1500, and a view at \<open>pos = (0, 0)\<close> of size 800 by
  600 with the camera at the origin and nothing assigned to \<open>lock_scroll\<close>.
\<close>

definition example_system :: gamesystem where
  "example_system =
     \<lparr>system_id = ''default_id'', updateable = False, renderable = False, paused = False,
      active = True, gameworld = Some World, viewport = ''default_gameview'', entity_ids = []\<rparr>"

definition example_map :: gamemap where
  "example_map =
     \<lparr>system_id = ''default_map'', updateable = False, renderable = False, paused = False,
      active = True, gameworld = Some World, viewport = ''default_gameview'', entity_ids = [],
      map_size = (1500, 1500)\<rparr>"

definition example_view :: gameview where
  "example_view =
     \<lparr>system_id = ''default_gameview'', updateable = True, renderable = False, paused = True,
      active = True, gameworld = Some World, viewport = ''default_gameview'', entity_ids = [],
      pos = (0, 0), size_xy = (800, 600), camera_pos = (0, 0), do_scroll = False,
      focus_entity = False, entity_to_focus = None,
      focus_position_info_from = ''cymunk-physics'', has_camera_updated = False,
      force_camera_update = False, lock_scroll_attr = None\<rparr>"

text \<open>
  A world with two entities, 4 and 7 (entity 7 has a position from the physics system),
  four systems (a renderable base system \<open>renderer\<close>, a base system that is not
  renderable, the map and the view), and the map object at address 0 as current map.
  Every address holds the example map and the example view.
\<close>

definition example_store :: store where
  "example_store =
     \<lparr>entities = [4 \<mapsto> Map.empty,
                  7 \<mapsto> [''cymunk-physics'' \<mapsto> [''position'' \<mapsto> [900, 800]]]],
      systems = [(''renderer'',
                    SystemObj (example_system\<lparr>system_id := ''renderer'', renderable := True\<rparr>)),
                 (''default_id'', SystemObj example_system),
                 (''default_map'', MapObj 0),
                 (''default_gameview'', ViewObj 0)],
      currentmap = Some 0,
      map_heap = (\<lambda>r. example_map),
      view_heap = (\<lambda>r. example_view),
      stdout = [],
      update_calls = []\<rparr>"

text \<open>
  The same world with the view made renderable, following entity 7, and with
  \<open>force_camera_update\<close> set: the loop of \<open>on_camera_pos\<close> reaches the view itself.
\<close>

definition self_rendering_store :: store where
  "self_rendering_store =
     example_store\<lparr>view_heap := (\<lambda>r. example_view
        \<lparr>renderable := True, focus_entity := True, entity_to_focus := Some 7,
         force_camera_update := True\<rparr>)\<rparr>"

text \<open>
  States of that world while the view follows the entity: the camera of the view at
  \<open>(x, 0)\<close>, and any output and log.
\<close>

definition self_rendering_at :: "real \<Rightarrow> string list \<Rightarrow> (string \<times> real option) list \<Rightarrow> store" where
  "self_rendering_at x out calls =
     self_rendering_store\<lparr>view_heap := (view_heap self_rendering_store)
        (0 := (view_heap self_rendering_store 0)\<lparr>camera_pos := (x, 0)\<rparr>),
        stdout := out, update_calls := calls\<rparr>"

text \<open>
  The example world with a view that scrolls on a drag (\<open>do_scroll\<close> set), and the same
  after the assignment \<open>view.lock_scroll = False\<close>.
\<close>

definition scrolling_store :: store where
  "scrolling_store =
     example_store\<lparr>view_heap := (\<lambda>r. example_view\<lparr>do_scroll := True\<rparr>)\<rparr>"

definition unlocked_store :: store where
  "unlocked_store =
     example_store\<lparr>view_heap := (\<lambda>r. example_view
        \<lparr>do_scroll := True, lock_scroll_attr := Some (BoolVal False)\<rparr>)\<rparr>"

text \<open>
  The example world with the view following entity 7, at position \<open>(900, 800)\<close>: once with
  the camera at the origin, once with the camera a quarter of a unit from where the
  entity is centred.
\<close>

definition following_store :: store where
  "following_store =
     example_store\<lparr>view_heap := (\<lambda>r. example_view
        \<lparr>focus_entity := True, entity_to_focus := Some 7\<rparr>)\<rparr>"

definition centred_store :: store where
  "centred_store =
     example_store\<lparr>view_heap := (\<lambda>r. example_view
        \<lparr>focus_entity := True, entity_to_focus := Some 7, camera_pos := (- 500.25, - 500)\<rparr>)\<rparr>"

text \<open>
  A view and a map with the float values \<open>-287.3\<close>, \<open>0.3\<close>, \<open>600.0\<close> and \<open>887.6\<close> on the x
  axis: the doubles that these literals denote.
\<close>

definition boundary_view :: gameview where
  "boundary_view =
     example_view\<lparr>camera_pos := (round_double (- 287.3), 0), pos := (round_double 0.3, 0),
       size_xy := (600, 600)\<rparr>"

definition boundary_store :: store where
  "boundary_store =
     example_store\<lparr>map_heap := (\<lambda>r. example_map\<lparr>map_size := (round_double 887.6, 1500)\<rparr>)\<rparr>"

declare on_camera_pos.simps [simp del] update_renderables.simps [simp del]
  camera_pos_iadd.simps [simp del] GameView_update.simps [simp del]

section \<open>Entity bookkeeping of a system\<close>

lemma list_remove_absent: "x \<notin> set xs \<Longrightarrow> list_remove xs x = Inl ValueError"
  by (induction xs) auto

lemma list_remove_present: "x \<in> set xs \<Longrightarrow> list_remove xs x = Inr (remove1 x xs)"
  by (induction xs) auto

lemma remove_entity_present:
  "entity_id \<in> set (entity_ids self) \<Longrightarrow>
   remove_entity self entity_id = Inr (self\<lparr>entity_ids := remove1 entity_id (entity_ids self)\<rparr>)"
  by (simp add: remove_entity_def list_remove_present)

lemma remove_entity_absent:
  "entity_id \<notin> set (entity_ids self) \<Longrightarrow> remove_entity self entity_id = Inl ValueError"
  by (simp add: remove_entity_def list_remove_absent)

text \<open>
  C8: for every system and every entity id that is not in \<open>entity_ids\<close>, \<open>remove_entity\<close>
  raises the not-found error of \<open>list.remove\<close> (\<open>ValueError\<close>), which reaches the caller
  as the result; for every id that is in \<open>entity_ids\<close> it returns normally and removes
  that id: the first occurrence is deleted, every other field and the order of the
  remaining ids are kept, the id occurs once less, and when \<open>entity_ids\<close> had no duplicate
  the id is gone.
\<close>

theorem remove_entity_raises_or_removes:
  fixes self :: "'a gamesystem_scheme"
  shows "(entity_id \<notin> set (entity_ids self) \<longrightarrow> remove_entity self entity_id = Inl ValueError) \<and>
         (entity_id \<in> set (entity_ids self) \<longrightarrow>
            (\<exists>self'. remove_entity self entity_id = Inr self' \<and>
               self' = self\<lparr>entity_ids := remove1 entity_id (entity_ids self)\<rparr> \<and>
               count_list (entity_ids self') entity_id + 1 = count_list (entity_ids self) entity_id \<and>
               length (entity_ids self') + 1 = length (entity_ids self) \<and>
               (distinct (entity_ids self) \<longrightarrow> entity_id \<notin> set (entity_ids self'))))"
proof (intro conjI impI)
  assume "entity_id \<notin> set (entity_ids self)"
  then show "remove_entity self entity_id = Inl ValueError"
    by (rule remove_entity_absent)
next
  assume present: "entity_id \<in> set (entity_ids self)"
  have count: "count_list (remove1 entity_id xs) entity_id + 1 = count_list xs entity_id"
    if "entity_id \<in> set xs" for xs :: "nat list"
    using that by (induction xs) auto
  have len: "length (remove1 entity_id (entity_ids self)) + 1 = length (entity_ids self)"
    using present by (simp add: length_remove1) (metis Suc_pred length_pos_if_in_set)
  show "\<exists>self'. remove_entity self entity_id = Inr self' \<and>
          self' = self\<lparr>entity_ids := remove1 entity_id (entity_ids self)\<rparr> \<and>
          count_list (entity_ids self') entity_id + 1 = count_list (entity_ids self) entity_id \<and>
          length (entity_ids self') + 1 = length (entity_ids self) \<and>
          (distinct (entity_ids self) \<longrightarrow> entity_id \<notin> set (entity_ids self'))"
    using present count [OF present] len by (simp add: remove_entity_present)
qed

theorem remove_entity_raises_or_removes_witness:
  "remove_entity (example_system\<lparr>entity_ids := [3, 5, 7]\<rparr>) 4 = Inl ValueError \<and>
   remove_entity (example_system\<lparr>entity_ids := [3, 5, 7]\<rparr>) 5 =
     Inr (example_system\<lparr>entity_ids := [3, 7]\<rparr>)"
  using remove_entity_raises_or_removes [of 4 "example_system\<lparr>entity_ids := [3, 5, 7]\<rparr>"]
        remove_entity_raises_or_removes [of 5 "example_system\<lparr>entity_ids := [3, 5, 7]\<rparr>"]
  by auto

lemma after_call_distinct:
  assumes "distinct (entity_ids (fst s))"
    and "respects_contract (c # cs) s"
  shows "distinct (entity_ids (fst (after_call c s)))"
proof (cases c)
  case (Create e d)
  with assms show ?thesis
    by (cases s) (auto simp: after_call_def create_component_def split: sum.splits option.splits)
next
  case (Remove e)
  with assms show ?thesis
    by (cases s) (auto simp: after_call_def remove_entity_present split: sum.splits)
qed

lemma respects_contract_tail:
  "respects_contract (c # cs) s \<Longrightarrow> respects_contract cs (after_call c s)"
  by (cases c) auto

text \<open>
  C9: take any system whose \<open>entity_ids\<close> has no duplicate (a new system has the empty
  list) and any sequence of \<open>create_component\<close> and \<open>remove_entity\<close> calls in which no
  create is issued for an id that is present and every remove targets a present id. Then
  \<open>entity_ids\<close> has no duplicate after each call of the sequence.
\<close>

theorem entity_ids_distinct_after_each_call:
  fixes s :: "'a gamesystem_scheme \<times> store"
  assumes "distinct (entity_ids (fst s))"
    and "respects_contract cs s"
  shows "\<forall>s' \<in> set (states_after cs s). distinct (entity_ids (fst s'))"
  using assms
proof (induction cs arbitrary: s)
  case Nil
  then show ?case by simp
next
  case (Cons c cs)
  have d: "distinct (entity_ids (fst (after_call c s)))"
    using Cons.prems by (rule after_call_distinct)
  have r: "respects_contract cs (after_call c s)"
    using Cons.prems(2) by (rule respects_contract_tail)
  from Cons.IH [OF d r] d show ?case by simp
qed

theorem entity_ids_distinct_after_each_call_witness:
  "distinct (entity_ids (fst (example_system, example_store))) \<and>
   respects_contract [Create 4 Map.empty, Create 7 Map.empty, Remove 4, Create 4 Map.empty]
     (example_system, example_store) \<and>
   map (\<lambda>s. entity_ids (fst s))
     (states_after [Create 4 Map.empty, Create 7 Map.empty, Remove 4, Create 4 Map.empty]
        (example_system, example_store)) = [[4], [4, 7], [7], [7, 4]] \<and>
   list_all (\<lambda>s. distinct (entity_ids (fst s)))
     (states_after [Create 4 Map.empty, Create 7 Map.empty, Remove 4, Create 4 Map.empty]
        (example_system, example_store))"
proof -
  have d: "distinct (entity_ids (fst (example_system, example_store)))"
    by (simp add: example_system_def)
  have r: "respects_contract [Create 4 Map.empty, Create 7 Map.empty, Remove 4, Create 4 Map.empty]
             (example_system, example_store)"
    by (simp add: after_call_def create_component_def remove_entity_def example_system_def
        example_store_def)
  have m: "map (\<lambda>s. entity_ids (fst s))
     (states_after [Create 4 Map.empty, Create 7 Map.empty, Remove 4, Create 4 Map.empty]
        (example_system, example_store)) = [[4], [4, 7], [7], [7, 4]]"
    by (simp add: after_call_def create_component_def remove_entity_def example_system_def
        example_store_def)
  from entity_ids_distinct_after_each_call [OF d r] d r m show ?thesis
    by (simp only: list_all_iff simp_thms)
qed

text \<open>
  C10: when a \<open>create_component\<close> call for an entity id has succeeded, a second call for
  the same id raises no error. It replaces the payload stored in the entity under the
  system's id by the newly generated one and appends the id to \<open>entity_ids\<close> once more, so
  that the list holds the id twice more than before the first call and has a duplicate.
\<close>

theorem create_component_twice:
  fixes self :: "'a gamesystem_scheme"
  assumes first: "create_component self st entity_id d1 = Inr (self1, st1)"
  shows "\<exists>self2 st2 entity1.
           create_component self1 st1 entity_id d2 = Inr (self2, st2) \<and>
           entities st1 entity_id = Some entity1 \<and>
           entity1 (system_id self1) = Some (generate_component_data d1) \<and>
           st2 = st1\<lparr>entities := (entities st1)(entity_id \<mapsto>
                   entity1(system_id self1 \<mapsto> generate_component_data d2))\<rparr> \<and>
           self2 = self1\<lparr>entity_ids := entity_ids self1 @ [entity_id]\<rparr> \<and>
           entity_ids self2 = entity_ids self @ [entity_id, entity_id] \<and>
           count_list (entity_ids self2) entity_id = count_list (entity_ids self) entity_id + 2 \<and>
           \<not> distinct (entity_ids self2)"
proof -
  from first obtain entity where w: "gameworld self \<noteq> None"
    and e: "entities st entity_id = Some entity"
    and self1: "self1 = self\<lparr>entity_ids := entity_ids self @ [entity_id]\<rparr>"
    and st1: "st1 = st\<lparr>entities := (entities st)(entity_id \<mapsto>
                entity(system_id self \<mapsto> generate_component_data d1))\<rparr>"
    by (auto simp: create_component_def split: option.splits)
  show ?thesis
    using w by (auto simp: create_component_def self1 st1)
qed

theorem create_component_twice_witness:
  "\<exists>self1 st1 self2 st2.
     create_component example_system example_store 7 [''position'' \<mapsto> [1, 2]] = Inr (self1, st1) \<and>
     create_component self1 st1 7 [''position'' \<mapsto> [3, 4]] = Inr (self2, st2) \<and>
     entity_ids self2 = [7, 7] \<and>
     map_option (\<lambda>entity. entity ''default_id'') (entities st2 7)
       = Some (Some [''position'' \<mapsto> [3, 4]])"
proof -
  obtain self1 st1 where
    first: "create_component example_system example_store 7 [''position'' \<mapsto> [1, 2]] = Inr (self1, st1)"
    by (simp add: create_component_def example_system_def example_store_def)
  have ids: "entity_ids example_system = []" and sid: "system_id self1 = ''default_id''"
    using first by (auto simp: example_system_def create_component_def example_store_def)
  from create_component_twice [OF first, of "[''position'' \<mapsto> [3, 4]]"]
  obtain self2 st2 entity1 where
    second: "create_component self1 st1 7 [''position'' \<mapsto> [3, 4]] = Inr (self2, st2)"
    and "st2 = st1\<lparr>entities := (entities st1)(7 \<mapsto>
                   entity1(system_id self1 \<mapsto> generate_component_data [''position'' \<mapsto> [3, 4]]))\<rparr>"
    and "entity_ids self2 = entity_ids example_system @ [7, 7]"
    by blast
  then show ?thesis
    using first ids sid by (simp add: generate_component_data_def)
qed

section \<open>The current map of the world\<close>

lemma on_add_system_currentmap:
  "gameworld (map_heap st x) \<noteq> None \<Longrightarrow> currentmap (GameMap_on_add_system x st) = Some x"
  by (simp add: GameMap_on_add_system_def on_add_system_def Let_def)

lemma on_add_system_gameworld:
  "gameworld (map_heap (GameMap_on_add_system x st) y) = gameworld (map_heap st y)"
  by (simp add: GameMap_on_add_system_def on_add_system_def Let_def)

lemma on_remove_system_result:
  assumes "gameworld (map_heap st x) \<noteq> None"
  shows "\<exists>st'. GameMap_on_remove_system x st = Inr st' \<and>
           currentmap st' = (if currentmap st = Some x then None else currentmap st) \<and>
           (\<forall>y. gameworld (map_heap st' y) = gameworld (map_heap st y))"
  using assms
  by (auto simp: GameMap_on_remove_system_def on_remove_system_def Let_def split: option.splits)

text \<open>
  C7: the \<open>currentmap\<close> slot of the world is written by the last map added and cleared
  only by the map it holds. For two distinct map objects \<open>a\<close> and \<open>b\<close> that both have the
  world: after \<open>on_add_system\<close> of \<open>a\<close> the slot holds \<open>a\<close>; after \<open>on_add_system\<close> of \<open>b\<close>
  it holds \<open>b\<close>; \<open>on_remove_system\<close> of \<open>a\<close> then returns and leaves \<open>b\<close> in the slot;
  \<open>on_remove_system\<close> of \<open>b\<close> then returns and leaves the slot empty.
\<close>

theorem currentmap_last_writer_wins:
  assumes "a \<noteq> b"
    and "gameworld (map_heap st a) \<noteq> None"
    and "gameworld (map_heap st b) \<noteq> None"
  shows "\<exists>st3 st4.
           currentmap (GameMap_on_add_system a st) = Some a \<and>
           currentmap (GameMap_on_add_system b (GameMap_on_add_system a st)) = Some b \<and>
           GameMap_on_remove_system a (GameMap_on_add_system b (GameMap_on_add_system a st)) = Inr st3 \<and>
           currentmap st3 = Some b \<and>
           GameMap_on_remove_system b st3 = Inr st4 \<and>
           currentmap st4 = None"
proof -
  let ?st1 = "GameMap_on_add_system a st"
  let ?st2 = "GameMap_on_add_system b ?st1"
  have c1: "currentmap ?st1 = Some a"
    using assms(2) by (rule on_add_system_currentmap)
  have c2: "currentmap ?st2 = Some b"
    using assms(3) by (simp add: on_add_system_currentmap on_add_system_gameworld)
  have "gameworld (map_heap ?st2 a) \<noteq> None"
    using assms(2) by (simp add: on_add_system_gameworld)
  from on_remove_system_result [OF this] obtain st3 where
    r3: "GameMap_on_remove_system a ?st2 = Inr st3"
    and c3: "currentmap st3 = (if currentmap ?st2 = Some a then None else currentmap ?st2)"
    and g3: "\<forall>y. gameworld (map_heap st3 y) = gameworld (map_heap ?st2 y)"
    by blast
  have c3': "currentmap st3 = Some b"
    using c3 c2 assms(1) by simp
  have "gameworld (map_heap st3 b) \<noteq> None"
    using g3 assms(3) by (simp add: on_add_system_gameworld)
  from on_remove_system_result [OF this] obtain st4 where
    r4: "GameMap_on_remove_system b st3 = Inr st4"
    and c4: "currentmap st4 = (if currentmap st3 = Some b then None else currentmap st3)"
    by blast
  have "currentmap st4 = None"
    using c4 c3' by simp
  with c1 c2 r3 c3' r4 show ?thesis by blast
qed

theorem currentmap_last_writer_wins_witness:
  "\<exists>st3 st4.
     currentmap (GameMap_on_add_system 0 example_store) = Some 0 \<and>
     currentmap (GameMap_on_add_system 1 (GameMap_on_add_system 0 example_store)) = Some 1 \<and>
     GameMap_on_remove_system 0 (GameMap_on_add_system 1 (GameMap_on_add_system 0 example_store)) = Inr st3 \<and>
     currentmap st3 = Some 1 \<and>
     GameMap_on_remove_system 1 st3 = Inr st4 \<and>
     currentmap st4 = None"
  using currentmap_last_writer_wins [of 0 1 example_store]
  by (simp add: example_store_def example_map_def)

section \<open>Float arithmetic on integers\<close>

text \<open>
  Evaluation of \<open>round_double\<close> on a numeral, and the fact that integers up to \<open>2^53\<close>
  are doubles.
\<close>

lemmas round_double_eval = round_double_def exponent_def compute_bitlen pow2_def round_half_even_def Let_def

lemma round_half_even_of_int: "round_half_even (of_int m) = m"
  by (simp add: round_half_even_def)

lemma exponent_of_int:
  assumes "n \<noteq> 0"
  shows "exponent (of_int n) = bitlen \<bar>n\<bar> - 1"
proof -
  have "\<bar>of_int n :: real\<bar> = of_int \<bar>n\<bar>" by simp
  moreover have "1 \<le> \<bar>n\<bar>" using assms by simp
  then have "(of_int 1 :: real) \<le> of_int \<bar>n\<bar>" by (simp only: of_int_le_iff)
  then have "(1::real) \<le> of_int \<bar>n\<bar>" by simp
  ultimately show ?thesis by (simp add: exponent_def del: of_int_abs)
qed

lemma round_double_of_int:
  assumes "\<bar>n\<bar> \<le> 2 ^ 53"
  shows "round_double (of_int n) = of_int n"
proof (cases "n = 0")
  case True
  then show ?thesis by (simp add: round_double_def)
next
  case False
  define e where "e = bitlen \<bar>n\<bar> - 1"
  have pos: "0 < \<bar>n\<bar>" using False by simp
  from bitlen_bounds [OF pos] have lo: "2 ^ nat e \<le> \<bar>n\<bar>"
    by (simp add: e_def)
  have e0: "0 \<le> e" using pos by (simp add: e_def bitlen_def floorlog_def)
  have "(2::int) ^ nat e \<le> 2 ^ 53" using lo assms by linarith
  then have e53: "nat e \<le> 53"
    by (rule power_le_imp_le_exp [rotated]) simp
  have ex: "exponent (of_int n) = e" using False by (simp add: exponent_of_int e_def)
  show ?thesis
  proof (cases "nat e \<le> 52")
    case True
    then obtain k where k: "52 = nat e + k" using le_Suc_ex by blast
    then have ek: "e - 52 = - int k" using e0 by linarith
    have q: "pow2 (max e (- 1022) - 52) = (if k = 0 then 1 else 1 / 2 ^ k)"
      using e0 ek by (auto simp: pow2_def max_def)
    have "round_double (of_int n) = of_int (round_half_even (of_int (n * 2 ^ k))) * (1 / 2 ^ k)"
      using False q by (auto simp: round_double_def ex Let_def)
    then show ?thesis by (simp only: round_half_even_of_int) simp
  next
    case False
    with e53 have e: "nat e = 53" by simp
    then have "e = 53" using e0 by linarith
    have "\<bar>n\<bar> = 2 ^ 53" using lo assms e by simp
    then have "n = 2 * 2 ^ 52 \<or> n = 2 * - (2 ^ 52)" by (simp add: abs_if split: if_splits)
    then obtain m where m: "n = 2 * m" by blast
    have q: "pow2 (max e (- 1022) - 52) = 2" using \<open>e = 53\<close> by (simp add: pow2_def)
    have "round_double (of_int n) = of_int (round_half_even (of_int n / 2)) * 2"
      using \<open>n \<noteq> 0\<close> q by (simp add: round_double_def ex Let_def)
    also have "of_int n / (2::real) = of_int m" by (simp add: m)
    finally show ?thesis by (simp only: round_half_even_of_int) (simp add: m)
  qed
qed

lemma exact_on_integers_round_double: "exact_on_integers round_double"
  by (simp add: exact_on_integers_def round_double_of_int)

lemma exact_on_integers_id: "exact_on_integers id"
  by (simp add: exact_on_integers_def)

lemma exact_zero: "exact_on_integers rnd \<Longrightarrow> rnd 0 = 0"
  using exact_on_integers_def [of rnd] by (auto dest: spec [of _ 0])

lemma exact_numeral:
  assumes "exact_on_integers rnd" and "numeral k \<le> (2::int) ^ 53"
  shows "rnd (numeral k) = numeral k" and "rnd (- numeral k) = - numeral k"
proof -
  show "rnd (numeral k) = numeral k"
    using assms(1) [unfolded exact_on_integers_def, rule_format, of "numeral k"] assms(2) by simp
  show "rnd (- numeral k) = - numeral k"
    using assms(1) [unfolded exact_on_integers_def, rule_format, of "- numeral k"] assms(2) by simp
qed

section \<open>The clamp function\<close>

text \<open>
  C1, as the specification states it, fails: with the camera at \<open>(0, 0)\<close>, the view at
  \<open>pos = (0, 0)\<close> of size \<open>(800, 600)\<close> and a current map of size \<open>(1500, 1500)\<close>,
  \<open>lock_scroll(-50, 0)\<close> returns \<open>(-50, 0)\<close>, not a zero \<open>dx'\<close>: neither branch condition
  holds (\<open>-50 > 0\<close> is false and \<open>1450 \<le> 800\<close> is false).
\<close>

theorem lock_scroll_origin_counterexample:
  "lock_scroll round_double example_view example_store (- 50, 0) = Inr (- 50, 0) \<and>
   lock_scroll round_double example_view example_store (- 50, 0) \<noteq> Inr (0, 0)"
  by (simp add: lock_scroll_def example_view_def example_store_def example_map_def
      round_double_def exponent_def compute_bitlen pow2_def round_half_even_def Let_def)

text \<open>
  C1 (amended): for a view with \<open>camera_pos = (0, 0)\<close>, \<open>pos = (0, 0)\<close>,
  \<open>size = (800, 600)\<close> and a current map of \<open>map_size = (1500, 1500)\<close>,
  \<open>lock_scroll(-50, 0)\<close> returns the delta unchanged, \<open>(-50, 0)\<close>; the delta that is clamped
  to zero in this state is the positive one: \<open>lock_scroll(50, 0)\<close> returns \<open>(0, 0)\<close>. A
  positive delta would move the map's origin to the right of the view's origin. This
  holds in integer and in float arithmetic (all values involved are small integers).
\<close>

theorem lock_scroll_origin_example:
  assumes "exact_on_integers rnd"
    and "gameworld self \<noteq> None" and "currentmap st = Some m"
    and "map_size (map_heap st m) = (1500, 1500)"
    and "camera_pos self = (0, 0)" and "pos self = (0, 0)" and "size_xy self = (800, 600)"
  shows "lock_scroll rnd self st (- 50, 0) = Inr (- 50, 0) \<and>
         lock_scroll rnd self st (50, 0) = Inr (0, 0)"
proof -
  note ex = exact_numeral [OF assms(1)] exact_zero [OF assms(1)]
  have r: "rnd 0 = 0" "rnd 50 = 50" "rnd (- 50) = - 50" "rnd 600 = 600" "rnd 800 = 800"
    "rnd 1450 = 1450" "rnd 1500 = 1500" "rnd 1550 = 1550"
    by (simp_all add: ex)
  show ?thesis
    using assms(2-) by (auto simp: lock_scroll_def r)
qed

theorem lock_scroll_origin_example_witness:
  "lock_scroll round_double example_view example_store (- 50, 0) = Inr (- 50, 0) \<and>
   lock_scroll round_double example_view example_store (50, 0) = Inr (0, 0)"
  using lock_scroll_origin_example [OF exact_on_integers_round_double,
      of example_view example_store 0]
  by (simp add: example_view_def example_store_def example_map_def)

text \<open>
  C4: for a view with a world and a current map, \<open>lock_scroll\<close> returns a pair, and
  whenever both branch conditions hold on the x axis as the code evaluates them
  (\<open>camera_pos.x + dx > pos.x\<close> and \<open>camera_pos.x + map_size.x + dx \<le> pos.x + size.x\<close>) the
  first branch decides: \<open>dx'\<close> is the code's \<open>pos.x - camera_pos.x\<close>. The same holds for the
  y axis, independently of the x axis. On the exact values both conditions can hold
  only when the map is narrower than the view.
\<close>

theorem lock_scroll_first_branch_wins:
  assumes "gameworld self \<noteq> None" and "currentmap st = Some m"
  shows "\<exists>dx' dy'. lock_scroll rnd self st (dx, dy) = Inr (dx', dy') \<and>
           (rnd (fst (camera_pos self) + dx) > fst (pos self) \<and>
            rnd (rnd (fst (camera_pos self) + fst (map_size (map_heap st m))) + dx)
              \<le> rnd (fst (pos self) + fst (size_xy self))
            \<longrightarrow> dx' = rnd (fst (pos self) - fst (camera_pos self))) \<and>
           (rnd (snd (camera_pos self) + dy) > snd (pos self) \<and>
            rnd (rnd (snd (camera_pos self) + snd (map_size (map_heap st m))) + dy)
              \<le> rnd (snd (pos self) + snd (size_xy self))
            \<longrightarrow> dy' = rnd (snd (pos self) - snd (camera_pos self))) \<and>
           (fst (camera_pos self) + dx > fst (pos self) \<and>
            fst (camera_pos self) + fst (map_size (map_heap st m)) + dx
              \<le> fst (pos self) + fst (size_xy self)
            \<longrightarrow> fst (map_size (map_heap st m)) < fst (size_xy self)) \<and>
           (snd (camera_pos self) + dy > snd (pos self) \<and>
            snd (camera_pos self) + snd (map_size (map_heap st m)) + dy
              \<le> snd (pos self) + snd (size_xy self)
            \<longrightarrow> snd (map_size (map_heap st m)) < snd (size_xy self))"
  using assms by (auto simp: lock_scroll_def Let_def)

theorem lock_scroll_first_branch_wins_witness:
  "lock_scroll round_double example_view
     (example_store\<lparr>map_heap := (\<lambda>r. example_map\<lparr>map_size := (100, 1500)\<rparr>)\<rparr>) (10, 0)
     = Inr (0, 0)"
  using lock_scroll_first_branch_wins [of example_view
     "example_store\<lparr>map_heap := (\<lambda>r. example_map\<lparr>map_size := (100, 1500)\<rparr>)\<rparr>" 0
     round_double 10 0]
  by (auto simp: lock_scroll_def example_view_def example_store_def example_map_def
      round_double_def exponent_def compute_bitlen pow2_def round_half_even_def Let_def)

text \<open>
  C5, as the specification states it, fails in float arithmetic: with camera x
  \<open>-287.3\<close>, map width \<open>887.6\<close>, view width \<open>600.0\<close> and view x \<open>0.3\<close> the camera is within
  bounds (\<open>camera_pos \<le> pos\<close> and \<open>camera_pos + map_size \<ge> pos + size\<close> hold for the doubles),
  the two sums round to the same double, the second branch is taken and its correction
  is \<open>-2^-43\<close>, not \<open>0\<close>.
\<close>

theorem lock_scroll_zero_boundary_counterexample:
  "fst (camera_pos boundary_view) \<le> fst (pos boundary_view) \<and>
   fst (camera_pos boundary_view) + fst (map_size (map_heap boundary_store 0))
     \<ge> fst (pos boundary_view) + fst (size_xy boundary_view) \<and>
   snd (camera_pos boundary_view) \<le> snd (pos boundary_view) \<and>
   snd (camera_pos boundary_view) + snd (map_size (map_heap boundary_store 0))
     \<ge> snd (pos boundary_view) + snd (size_xy boundary_view) \<and>
   lock_scroll round_double boundary_view boundary_store (0, 0) = Inr (- (1 / 2 ^ 43), 0)"
  by (simp add: lock_scroll_def boundary_view_def boundary_store_def example_view_def
      example_store_def example_map_def round_double_eval)

text \<open>
  C5 (amended): for every camera state within bounds (on each axis
  \<open>camera_pos \<le> pos\<close> and \<open>camera_pos + map_size \<ge> pos + size\<close>) in which the sums and
  differences that the clamp computes are exact, as they are for integer values,
  \<open>lock_scroll(0, 0)\<close> returns \<open>(0, 0)\<close>. On the boundary
  \<open>camera_pos + map_size = pos + size\<close> the second branch is taken and its correction is
  zero.
\<close>

theorem lock_scroll_zero_in_bounds:
  assumes "gameworld self \<noteq> None" and "currentmap st = Some m"
    and "fst (camera_pos self) \<le> fst (pos self)"
    and "fst (camera_pos self) + fst (map_size (map_heap st m)) \<ge> fst (pos self) + fst (size_xy self)"
    and "snd (camera_pos self) \<le> snd (pos self)"
    and "snd (camera_pos self) + snd (map_size (map_heap st m)) \<ge> snd (pos self) + snd (size_xy self)"
    and "exact_sums rnd (fst (camera_pos self)) (fst (map_size (map_heap st m)))
           (fst (pos self)) (fst (size_xy self))"
    and "exact_sums rnd (snd (camera_pos self)) (snd (map_size (map_heap st m)))
           (snd (pos self)) (snd (size_xy self))"
  shows "lock_scroll rnd self st (0, 0) = Inr (0, 0)"
proof -
  have x: "rnd (rnd (rnd (p + s) - c) - m) = 0"
    if "exact_sums rnd c m p s" "c + m \<le> p + s" "c + m \<ge> p + s" for c m p s :: real
  proof -
    have "p + s - c - m = 0" using that(2,3) by simp
    then show ?thesis using that(1) by (simp add: exact_sums_def)
  qed
  show ?thesis
    using assms x [OF assms(7)] x [OF assms(8)]
    by (auto simp: lock_scroll_def Let_def exact_sums_def)
qed

theorem lock_scroll_zero_in_bounds_witness:
  "lock_scroll round_double (example_view\<lparr>camera_pos := (- 700, - 300)\<rparr>) example_store (0, 0)
     = Inr (0, 0)"
  using lock_scroll_zero_in_bounds [of "example_view\<lparr>camera_pos := (- 700, - 300)\<rparr>"
      example_store 0 round_double]
  by (simp add: example_view_def example_store_def example_map_def exact_sums_def
      round_double_def exponent_def compute_bitlen pow2_def round_half_even_def Let_def)

section \<open>The forced update of the renderable systems\<close>

lemma renderable_of_frame [simp]:
  "renderable_of (st\<lparr>update_calls := l\<rparr>) obj = renderable_of st obj"
  "renderable_of (st\<lparr>stdout := out\<rparr>) obj = renderable_of st obj"
  "renderable_of (st\<lparr>view_heap := (view_heap st)
      (self := (view_heap st self)\<lparr>has_camera_updated := h\<rparr>)\<rparr>) obj = renderable_of st obj"
  "renderable_of (st\<lparr>view_heap := (view_heap st)
      (self := (view_heap st self)\<lparr>camera_pos := c\<rparr>)\<rparr>) obj = renderable_of st obj"
  by (simp_all add: renderable_of_def split: system_obj.splits)

lemma active_of_frame [simp]:
  "active_of (st\<lparr>update_calls := l\<rparr>) obj = active_of st obj"
  "active_of (st\<lparr>stdout := out\<rparr>) obj = active_of st obj"
  "active_of (st\<lparr>view_heap := (view_heap st)
      (self := (view_heap st self)\<lparr>has_camera_updated := h\<rparr>)\<rparr>) obj = active_of st obj"
  "active_of (st\<lparr>view_heap := (view_heap st)
      (self := (view_heap st self)\<lparr>camera_pos := c\<rparr>)\<rparr>) obj = active_of st obj"
  by (simp_all add: active_of_def split: system_obj.splits)

lemma update_renderables_plain:
  assumes "list_all (\<lambda>(system, obj). \<not> (is_view obj \<and> renderable_of st obj \<and> active_of st obj)) sys"
  shows "update_renderables rnd depth sys st =
           Some (Inr (st\<lparr>update_calls := update_calls st @
             map (\<lambda>(system, obj). (system, None))
               (filter (\<lambda>(system, obj). renderable_of st obj \<and> active_of st obj) sys)\<rparr>))"
  using assms
proof (induction sys arbitrary: st)
  case Nil
  show ?case by (simp add: update_renderables.simps)
next
  case (Cons a sys)
  obtain system obj where a: "a = (system, obj)" by (cases a)
  have rest: "list_all (\<lambda>(system, obj). \<not> (is_view obj \<and> renderable_of st obj \<and> active_of st obj)) sys"
    using Cons.prems by simp
  show ?case
  proof (cases "renderable_of st obj \<and> active_of st obj")
    case False
    then show ?thesis
      using Cons.IH [OF rest] by (auto simp: a update_renderables.simps)
  next
    case True
    then have nv: "\<forall>v. obj \<noteq> ViewObj v"
      using Cons.prems by (auto simp: a is_view_def)
    let ?st1 = "st\<lparr>update_calls := update_calls st @ [(system, None)]\<rparr>"
    have rest1: "list_all (\<lambda>(system, obj). \<not> (is_view obj \<and> renderable_of ?st1 obj \<and> active_of ?st1 obj)) sys"
      using rest by simp
    have step: "(let st = ?st1
           in case obj of
                ViewObj v \<Rightarrow>
                  (case depth of
                     0 \<Rightarrow> None
                   | Suc d \<Rightarrow> GameView_update rnd d v None st)
              | _ \<Rightarrow> Some (Inr (GameSystem_update None st))) = Some (Inr ?st1)"
      using nv by (cases obj) (simp_all add: GameSystem_update_def)
    show ?thesis
      using True Cons.IH [OF rest1]
      by (simp add: a update_renderables.simps step run_bind_def del: Let_def)
  qed
qed

lemma update_renderables_no_view:
  assumes "no_view_rendered st"
  shows "update_renderables rnd depth (systems st) st =
           Some (Inr (st\<lparr>update_calls := update_calls st @ renderable_active st\<rparr>))"
  using update_renderables_plain [of st "systems st"] assms
  by (simp add: no_view_rendered_def renderable_active_def)

lemma on_camera_pos_cascade:
  assumes "force_camera_update (view_heap st self)"
    and "\<not> has_camera_updated (view_heap st self)"
    and "gameworld (view_heap st self) \<noteq> None"
    and "no_view_rendered st"
  shows "on_camera_pos rnd depth self st =
           Some (Inr (st\<lparr>view_heap := (view_heap st)
                         (self := (view_heap st self)\<lparr>has_camera_updated := True\<rparr>),
                       stdout := stdout st @ [''camera updating''],
                       update_calls := update_calls st @ renderable_active st\<rparr>))"
proof -
  let ?st1 = "st\<lparr>stdout := stdout st @ [''camera updating'']\<rparr>"
  have nv: "no_view_rendered ?st1"
    using assms(4) by (simp add: no_view_rendered_def)
  have ra: "renderable_active ?st1 = renderable_active st"
    by (simp add: renderable_active_def)
  show ?thesis
    using assms(1-3) update_renderables_no_view [OF nv, of rnd depth]
    by (auto simp: on_camera_pos.simps run_bind_def ra)
qed

lemma on_camera_pos_skip:
  assumes "force_camera_update (view_heap st self)" and "has_camera_updated (view_heap st self)"
  shows "on_camera_pos rnd depth self st =
           Some (Inr (st\<lparr>view_heap := (view_heap st)
                         (self := (view_heap st self)\<lparr>has_camera_updated := False\<rparr>)\<rparr>))"
  using assms by (simp add: on_camera_pos.simps)

lemma on_camera_pos_off:
  assumes "\<not> force_camera_update (view_heap st self)"
  shows "on_camera_pos rnd depth self st = Some (Inr st)"
  using assms by (simp add: on_camera_pos.simps)

lemma no_view_rendered_frame [simp]:
  "no_view_rendered (st\<lparr>stdout := out\<rparr>) = no_view_rendered st"
  "no_view_rendered (st\<lparr>update_calls := l\<rparr>) = no_view_rendered st"
  "no_view_rendered (st\<lparr>view_heap := (view_heap st)
      (self := (view_heap st self)\<lparr>has_camera_updated := h\<rparr>)\<rparr>) = no_view_rendered st"
  "no_view_rendered (st\<lparr>view_heap := (view_heap st)
      (self := (view_heap st self)\<lparr>camera_pos := c\<rparr>)\<rparr>) = no_view_rendered st"
  by (simp_all add: no_view_rendered_def)

lemma renderable_active_frame [simp]:
  "renderable_active (st\<lparr>stdout := out\<rparr>) = renderable_active st"
  "renderable_active (st\<lparr>update_calls := l\<rparr>) = renderable_active st"
  "renderable_active (st\<lparr>view_heap := (view_heap st)
      (self := (view_heap st self)\<lparr>has_camera_updated := h\<rparr>)\<rparr>) = renderable_active st"
  "renderable_active (st\<lparr>view_heap := (view_heap st)
      (self := (view_heap st self)\<lparr>camera_pos := c\<rparr>)\<rparr>) = renderable_active st"
  by (simp_all add: renderable_active_def)

lemma cascades_step:
  "cascades g (Suc n) = (if g then 0 else 1) + cascades (\<not> g) n"
  by (auto simp: cascades_def)

lemma camera_mutations_parity:
  assumes "force_camera_update (view_heap st self)"
    and "gameworld (view_heap st self) \<noteq> None"
    and "no_view_rendered st"
  shows "\<exists>st'. camera_mutations rnd depth ms self st = Some (Inr st') \<and>
           has_camera_updated (view_heap st' self)
             = (has_camera_updated (view_heap st self) \<noteq> odd (length ms)) \<and>
           stdout st' = stdout st @
             replicate (cascades (has_camera_updated (view_heap st self)) (length ms))
               ''camera updating'' \<and>
           update_calls st' = update_calls st @
             concat (replicate (cascades (has_camera_updated (view_heap st self)) (length ms))
               (renderable_active st))"
  using assms
proof (induction ms arbitrary: st)
  case Nil
  then show ?case by (simp add: cascades_def)
next
  case (Cons m ms)
  obtain i d where m: "m = (i, d)" by (cases m)
  define c where "c = (if i = 0
      then (rnd (fst (camera_pos (view_heap st self)) + d), snd (camera_pos (view_heap st self)))
      else (fst (camera_pos (view_heap st self)), rnd (snd (camera_pos (view_heap st self)) + d)))"
  define st0 where "st0 = st\<lparr>view_heap := (view_heap st)
      (self := (view_heap st self)\<lparr>camera_pos := c\<rparr>)\<rparr>"
  have iadd: "camera_pos_iadd rnd depth i d self st = on_camera_pos rnd depth self st0"
    by (simp add: camera_pos_iadd.simps st0_def c_def Let_def)
  have f0: "force_camera_update (view_heap st0 self)"
    and g0: "gameworld (view_heap st0 self) \<noteq> None"
    and h0: "has_camera_updated (view_heap st0 self) = has_camera_updated (view_heap st self)"
    and n0: "no_view_rendered st0"
    and r0: "renderable_active st0 = renderable_active st"
    and o0: "stdout st0 = stdout st" "update_calls st0 = update_calls st"
    using Cons.prems by (simp_all add: st0_def)
  show ?case
  proof (cases "has_camera_updated (view_heap st self)")
    case True
    define st1 where "st1 = st0\<lparr>view_heap := (view_heap st0)
                         (self := (view_heap st0 self)\<lparr>has_camera_updated := False\<rparr>)\<rparr>"
    have step: "camera_pos_iadd rnd depth i d self st = Some (Inr st1)"
      using f0 h0 True by (simp add: iadd on_camera_pos_skip st1_def)
    have p1: "force_camera_update (view_heap st1 self)" "gameworld (view_heap st1 self) \<noteq> None"
      "no_view_rendered st1"
      using f0 g0 n0 by (simp_all add: st1_def)
    have e1: "has_camera_updated (view_heap st1 self) = False" "stdout st1 = stdout st"
      "update_calls st1 = update_calls st" "renderable_active st1 = renderable_active st"
      using o0 r0 by (simp_all add: st1_def)
    from Cons.IH [OF p1] obtain st' where
      "camera_mutations rnd depth ms self st1 = Some (Inr st')"
      "has_camera_updated (view_heap st' self)
         = (has_camera_updated (view_heap st1 self) \<noteq> odd (length ms))"
      "stdout st' = stdout st1 @
         replicate (cascades (has_camera_updated (view_heap st1 self)) (length ms))
           ''camera updating''"
      "update_calls st' = update_calls st1 @
         concat (replicate (cascades (has_camera_updated (view_heap st1 self)) (length ms))
           (renderable_active st1))"
      by blast
    then show ?thesis
      using True by (simp add: m step run_bind_def cascades_step e1)
  next
    case False
    define st1 where "st1 = st0\<lparr>view_heap := (view_heap st0)
                         (self := (view_heap st0 self)\<lparr>has_camera_updated := True\<rparr>),
                       stdout := stdout st0 @ [''camera updating''],
                       update_calls := update_calls st0 @ renderable_active st0\<rparr>"
    have step: "camera_pos_iadd rnd depth i d self st = Some (Inr st1)"
      using f0 g0 h0 n0 False by (simp add: iadd on_camera_pos_cascade st1_def)
    have p1: "force_camera_update (view_heap st1 self)" "gameworld (view_heap st1 self) \<noteq> None"
      "no_view_rendered st1"
      using f0 g0 n0 by (simp_all add: st1_def)
    have e1: "has_camera_updated (view_heap st1 self) = True"
      "stdout st1 = stdout st @ [''camera updating'']"
      "update_calls st1 = update_calls st @ renderable_active st"
      "renderable_active st1 = renderable_active st"
      using o0 r0 by (simp_all add: st1_def)
    from Cons.IH [OF p1] obtain st' where
      "camera_mutations rnd depth ms self st1 = Some (Inr st')"
      "has_camera_updated (view_heap st' self)
         = (has_camera_updated (view_heap st1 self) \<noteq> odd (length ms))"
      "stdout st' = stdout st1 @
         replicate (cascades (has_camera_updated (view_heap st1 self)) (length ms))
           ''camera updating''"
      "update_calls st' = update_calls st1 @
         concat (replicate (cascades (has_camera_updated (view_heap st1 self)) (length ms))
           (renderable_active st1))"
      by blast
    then show ?thesis
      using False by (simp add: m step run_bind_def cascades_step e1 replicate_append_same)
  qed
qed

text \<open>
  When the view itself is renderable, active and following an entity, \<open>update\<close> never
  returns: its first item assignment runs \<open>on_camera_pos\<close> with the guard still false, the
  loop calls \<open>update\<close> of the view again, and so on, at every depth.
\<close>

lemma self_rendering_store_at: "self_rendering_store = self_rendering_at 0 [] []"
  by (simp add: self_rendering_at_def self_rendering_store_def example_store_def
      example_view_def fun_eq_iff)

lemma self_lock_scroll_unassigned:
  "lock_scroll_attr self = None \<Longrightarrow> self_lock_scroll self = Inr BoundMethod"
  by (simp add: self_lock_scroll_def class_dict_def GameView_body_def)

lemma clamp_if_locked_unassigned:
  "lock_scroll_attr self = None \<Longrightarrow> clamp_if_locked rnd self st d = lock_scroll rnd self st d"
  by (simp add: clamp_if_locked_def call_self_lock_scroll_def self_lock_scroll_unassigned
      result_bind_def)

lemma update_never_returns:
  "GameView_update id depth 0 None (self_rendering_at x out calls) = None"
proof (induction depth arbitrary: x out calls)
  case 0
  show ?case
    by (simp add: GameView_update.simps camera_pos_iadd.simps on_camera_pos.simps
        update_renderables.simps self_rendering_at_def self_rendering_store_def
        example_store_def example_view_def example_system_def example_map_def
        focus_position_def focus_distance_def clamp_if_locked_unassigned lock_scroll_def
        renderable_of_def active_of_def GameSystem_update_def run_bind_def Let_def)
next
  case (Suc depth)
  show ?case
    using Suc.IH
    by (simp add: GameView_update.simps [of _ "Suc depth"] camera_pos_iadd.simps
        on_camera_pos.simps
        update_renderables.simps self_rendering_at_def self_rendering_store_def
        example_store_def example_view_def example_system_def example_map_def
        focus_position_def focus_distance_def clamp_if_locked_unassigned lock_scroll_def
        renderable_of_def active_of_def GameSystem_update_def run_bind_def Let_def)
qed

lemma camera_pos_iadd_never_returns:
  "camera_pos_iadd id depth 0 d 0 (self_rendering_at x out calls) = None"
proof -
  have step: "update_renderables id depth (systems st) st = None"
    if "st = self_rendering_at x' out' calls'" for st x' out' calls'
  proof (cases depth)
    case 0
    then show ?thesis
      by (simp add: that update_renderables.simps self_rendering_at_def
          self_rendering_store_def example_store_def example_view_def example_system_def
          example_map_def renderable_of_def active_of_def GameSystem_update_def run_bind_def)
  next
    case (Suc n)
    have "GameView_update id n 0 None
            (self_rendering_at x' out' (calls' @ [(''renderer'', None), (''default_gameview'', None)]))
          = None"
      by (rule update_never_returns)
    then show ?thesis
      by (simp add: that Suc update_renderables.simps self_rendering_at_def
          self_rendering_store_def example_store_def example_view_def example_system_def
          example_map_def renderable_of_def active_of_def GameSystem_update_def run_bind_def)
  qed
  have "on_camera_pos id depth 0 (self_rendering_at (x + d) out calls) = None"
    using step [of "self_rendering_at (x + d) (out @ [''camera updating'']) calls"
        "x + d" "out @ [''camera updating'']" calls]
    by (simp add: on_camera_pos.simps run_bind_def self_rendering_at_def
        self_rendering_store_def example_store_def example_view_def)
  then show ?thesis
    by (simp add: camera_pos_iadd.simps self_rendering_at_def
        self_rendering_store_def example_store_def example_view_def)
qed

text \<open>
  C3, as the specification states it, fails: in the world whose view is itself
  renderable and follows an entity, with \<open>force_camera_update\<close> set and
  \<open>has_camera_updated\<close> false, the first mutation of \<open>camera_pos\<close> starts the loop and
  never returns (shown here at depth 1000; \<open>camera_pos_iadd_never_returns\<close> holds at every
  depth), so the guard is never set and there is no second mutation.
\<close>

theorem forced_update_never_returns_counterexample:
  "camera_mutations id 1000 [(0, 5)] 0 self_rendering_store = None \<and>
   force_camera_update (view_heap self_rendering_store 0) \<and>
   \<not> has_camera_updated (view_heap self_rendering_store 0)"
  by (simp add: camera_pos_iadd_never_returns [of _ _ 0 "[]" "[]", folded self_rendering_store_at]
      run_bind_def)
    (simp add: self_rendering_store_def example_store_def example_view_def)

text \<open>
  C3 (amended): let \<open>force_camera_update\<close> be set, \<open>has_camera_updated\<close> be false, the view
  have a world, and no view be among the renderable and active systems of the world.
  Then every sequence of \<open>camera_pos\<close> mutations returns, and after the first \<open>k\<close> of
  them \<open>has_camera_updated\<close> is true exactly when \<open>k\<close> is odd, and the loop that calls
  \<open>update(None)\<close> on every renderable and active system has run \<open>(k + 1) div 2\<close> times
  (each run prints one line and logs one call per such system). So the loop runs on the
  first, third, fifth, ... mutation, which sets the guard, and each mutation after one of
  these only resets the guard.
\<close>

theorem cascade_on_alternate_mutations:
  assumes "force_camera_update (view_heap st self)"
    and "\<not> has_camera_updated (view_heap st self)"
    and "gameworld (view_heap st self) \<noteq> None"
    and "no_view_rendered st"
  shows "\<forall>k \<le> length ms. \<exists>st'.
           camera_mutations rnd depth (take k ms) self st = Some (Inr st') \<and>
           has_camera_updated (view_heap st' self) = odd k \<and>
           stdout st' = stdout st @ replicate ((k + 1) div 2) ''camera updating'' \<and>
           update_calls st' = update_calls st @
             concat (replicate ((k + 1) div 2) (renderable_active st))"
proof (intro allI impI)
  fix k assume k: "k \<le> length ms"
  then have len: "length (take k ms) = k" by simp
  from camera_mutations_parity [OF assms(1,3,4), of rnd depth "take k ms"] assms(2)
  show "\<exists>st'.
           camera_mutations rnd depth (take k ms) self st = Some (Inr st') \<and>
           has_camera_updated (view_heap st' self) = odd k \<and>
           stdout st' = stdout st @ replicate ((k + 1) div 2) ''camera updating'' \<and>
           update_calls st' = update_calls st @
             concat (replicate ((k + 1) div 2) (renderable_active st))"
    by (simp only: len cascades_def if_False simp_thms)
qed

theorem cascade_on_alternate_mutations_witness:
  "\<exists>st'.
     camera_mutations round_double 0 [(0, 5), (1, 5), (0, - 3)] 0
       (example_store\<lparr>view_heap := (\<lambda>r. example_view\<lparr>force_camera_update := True\<rparr>)\<rparr>)
       = Some (Inr st') \<and>
     has_camera_updated (view_heap st' 0) \<and>
     stdout st' = [''camera updating'', ''camera updating''] \<and>
     update_calls st' = [(''renderer'', None), (''renderer'', None)]"
proof -
  let ?st = "example_store\<lparr>view_heap := (\<lambda>r. example_view\<lparr>force_camera_update := True\<rparr>)\<rparr>"
  have f: "force_camera_update (view_heap ?st 0)"
    and h: "\<not> has_camera_updated (view_heap ?st 0)"
    and g: "gameworld (view_heap ?st 0) \<noteq> None"
    by (simp_all add: example_view_def)
  have n: "no_view_rendered ?st"
    by (simp add: no_view_rendered_def example_store_def example_view_def example_system_def
        example_map_def is_view_def renderable_of_def active_of_def)
  have ra: "renderable_active ?st = [(''renderer'', None)]"
    by (simp add: renderable_active_def example_store_def example_view_def example_system_def
        example_map_def renderable_of_def active_of_def)
  have c: "(3 + 1) div 2 = Suc (Suc 0)" by simp
  have k: "3 \<le> length [(0::nat, 5::real), (1, 5), (0, - 3)]" by simp
  have t: "take 3 [(0::nat, 5::real), (1, 5), (0, - 3)] = [(0, 5), (1, 5), (0, - 3)]" by simp
  from cascade_on_alternate_mutations [OF f h g n, of "[(0, 5), (1, 5), (0, - 3)]" round_double 0,
      THEN spec, of 3, THEN mp, OF k]
  have "\<exists>st'.
           camera_mutations round_double 0 (take 3 [(0, 5), (1, 5), (0, - 3)]) 0 ?st
             = Some (Inr st') \<and>
           has_camera_updated (view_heap st' 0) = odd (3::nat) \<and>
           stdout st' = stdout ?st @ replicate ((3 + 1) div 2) ''camera updating'' \<and>
           update_calls st' = update_calls ?st @
             concat (replicate ((3 + 1) div 2) (renderable_active ?st))" .
  then show ?thesis
    unfolding ra c t by (simp add: example_store_def)
qed

section \<open>The update of the view\<close>

lemma on_camera_pos_frame:
  assumes "gameworld (view_heap st self) \<noteq> None"
    and "\<not> force_camera_update (view_heap st self) \<or> no_view_rendered st"
  shows "\<exists>st'. on_camera_pos rnd depth self st = Some (Inr st') \<and>
           camera_pos (view_heap st' self) = camera_pos (view_heap st self) \<and>
           gameworld (view_heap st' self) = gameworld (view_heap st self) \<and>
           force_camera_update (view_heap st' self) = force_camera_update (view_heap st self) \<and>
           no_view_rendered st' = no_view_rendered st"
proof (cases "force_camera_update (view_heap st self)")
  case False
  then show ?thesis by (simp add: on_camera_pos_off)
next
  case force: True
  with assms(2) have nv: "no_view_rendered st" by simp
  show ?thesis
  proof (cases "has_camera_updated (view_heap st self)")
    case True
    then show ?thesis using force by (simp add: on_camera_pos_skip)
  next
    case False
    then show ?thesis using force assms(1) nv by (simp add: on_camera_pos_cascade)
  qed
qed

lemma camera_pos_iadd_twice:
  assumes "gameworld (view_heap st self) \<noteq> None"
    and "\<not> force_camera_update (view_heap st self) \<or> no_view_rendered st"
  shows "\<exists>st'.
           run_bind (camera_pos_iadd rnd depth 0 dx self st)
             (\<lambda>st. camera_pos_iadd rnd depth 1 dy self st) = Some (Inr st') \<and>
           camera_pos (view_heap st' self) =
             (rnd (fst (camera_pos (view_heap st self)) + dx),
              rnd (snd (camera_pos (view_heap st self)) + dy))"
proof -
  define st0 where "st0 = st\<lparr>view_heap := (view_heap st)
      (self := (view_heap st self)\<lparr>camera_pos :=
         (rnd (fst (camera_pos (view_heap st self)) + dx), snd (camera_pos (view_heap st self)))\<rparr>)\<rparr>"
  have a0: "gameworld (view_heap st0 self) \<noteq> None"
    "\<not> force_camera_update (view_heap st0 self) \<or> no_view_rendered st0"
    using assms by (simp_all add: st0_def)
  from on_camera_pos_frame [OF a0, of rnd depth] obtain st1 where
    one: "on_camera_pos rnd depth self st0 = Some (Inr st1)"
    and c1: "camera_pos (view_heap st1 self) = camera_pos (view_heap st0 self)"
    and g1: "gameworld (view_heap st1 self) = gameworld (view_heap st0 self)"
    and f1: "force_camera_update (view_heap st1 self) = force_camera_update (view_heap st0 self)"
    and n1: "no_view_rendered st1 = no_view_rendered st0"
    by blast
  define st2 where "st2 = st1\<lparr>view_heap := (view_heap st1)
      (self := (view_heap st1 self)\<lparr>camera_pos :=
         (fst (camera_pos (view_heap st1 self)), rnd (snd (camera_pos (view_heap st1 self)) + dy))\<rparr>)\<rparr>"
  have a2: "gameworld (view_heap st2 self) \<noteq> None"
    "\<not> force_camera_update (view_heap st2 self) \<or> no_view_rendered st2"
    using a0 g1 f1 n1 by (simp_all add: st2_def)
  from on_camera_pos_frame [OF a2, of rnd depth] obtain st3 where
    two: "on_camera_pos rnd depth self st2 = Some (Inr st3)"
    and c3: "camera_pos (view_heap st3 self) = camera_pos (view_heap st2 self)"
    by blast
  have i1: "camera_pos_iadd rnd depth 0 dx self st = Some (Inr st1)"
    using one by (simp add: camera_pos_iadd.simps st0_def Let_def)
  have i2: "camera_pos_iadd rnd depth 1 dy self st1 = Some (Inr st3)"
    using two by (simp add: camera_pos_iadd.simps st2_def Let_def)
  have "camera_pos (view_heap st3 self) =
          (rnd (fst (camera_pos (view_heap st self)) + dx),
           rnd (snd (camera_pos (view_heap st self)) + dy))"
    using c3 c1 by (simp add: st2_def st0_def)
  then show ?thesis
    using i1 i2 by (simp add: run_bind_def)
qed

lemma focus_position_gameworld:
  "focus_position self st = Inr p \<Longrightarrow> gameworld self \<noteq> None"
  by (auto simp: focus_position_def split: option.splits)

text \<open>
  C6, as the specification states it, fails: in the world whose view is itself
  renderable, with \<open>force_camera_update\<close> set, a focus-follow update with the delta
  \<open>(-500, -500)\<close> never returns (shown here at depth 1000; \<open>update_never_returns\<close> holds at
  every depth): the first item assignment re-enters \<open>update\<close>, and the second component of
  \<open>camera_pos\<close> is never incremented.
\<close>

theorem update_never_returns_counterexample:
  "GameView_update id 1000 0 None self_rendering_store = None \<and>
   focus_entity (view_heap self_rendering_store 0) \<and>
   focus_position (view_heap self_rendering_store 0) self_rendering_store = Inr (900, 800) \<and>
   clamp_if_locked id (view_heap self_rendering_store 0) self_rendering_store
     (focus_distance id (view_heap self_rendering_store 0) (900, 800)) = Inr (- 500, - 500)"
  by (simp add: update_never_returns [of _ 0 "[]" "[]", folded self_rendering_store_at])
    (simp add: self_rendering_store_def example_store_def example_view_def example_map_def
      focus_position_def focus_distance_def clamp_if_locked_unassigned lock_scroll_def)

text \<open>
  C6 (amended): in a focus-follow update (\<open>focus_entity\<close> set, the position \<open>p\<close> of the
  focus entity read), let \<open>(dist_x, dist_y)\<close> be the re-centering delta
  \<open>- camera_pos - position + 0.5 * size\<close> after the guarded clamp, and let
  \<open>force_camera_update\<close> be off or no view be among the renderable and active systems of
  the world. Then \<open>update\<close> returns, nothing changes when \<open>|dist_x| + |dist_y| < 1\<close>, and
  \<open>camera_pos\<close> is incremented by \<open>(dist_x, dist_y)\<close> component-wise when
  \<open>|dist_x| + |dist_y| \<ge> 1\<close> (sums as the code computes them).
\<close>

theorem update_dead_zone:
  assumes "focus_entity (view_heap st self)"
    and "focus_position (view_heap st self) st = Inr p"
    and "clamp_if_locked rnd (view_heap st self) st
           (focus_distance rnd (view_heap st self) p) = Inr (dist_x, dist_y)"
    and "\<not> force_camera_update (view_heap st self) \<or> no_view_rendered st"
  shows "\<exists>st'. GameView_update rnd depth self dt st = Some (Inr st') \<and>
           (rnd (\<bar>dist_x\<bar> + \<bar>dist_y\<bar>) < 1 \<longrightarrow>
              st' = st \<and> camera_pos (view_heap st' self) = camera_pos (view_heap st self)) \<and>
           (rnd (\<bar>dist_x\<bar> + \<bar>dist_y\<bar>) \<ge> 1 \<longrightarrow>
              camera_pos (view_heap st' self) =
                (rnd (fst (camera_pos (view_heap st self)) + dist_x),
                 rnd (snd (camera_pos (view_heap st self)) + dist_y)))"
proof (cases "rnd (\<bar>dist_x\<bar> + \<bar>dist_y\<bar>) \<ge> 1")
  case True
  have "gameworld (view_heap st self) \<noteq> None"
    using assms(2) by (rule focus_position_gameworld)
  from camera_pos_iadd_twice [OF this assms(4), of rnd depth dist_x dist_y] obtain st' where
    "run_bind (camera_pos_iadd rnd depth 0 dist_x self st)
       (\<lambda>st. camera_pos_iadd rnd depth 1 dist_y self st) = Some (Inr st')"
    "camera_pos (view_heap st' self) =
       (rnd (fst (camera_pos (view_heap st self)) + dist_x),
        rnd (snd (camera_pos (view_heap st self)) + dist_y))"
    by blast
  then show ?thesis
    using True assms(1-3) by (simp add: GameView_update.simps)
next
  case False
  then show ?thesis
    using assms(1-3) by (simp add: GameView_update.simps)
qed

theorem update_dead_zone_witness:
  "camera_after 0 (GameView_update round_double 0 0 None following_store)
     = Some (Inr (- 500, - 500)) \<and>
   GameView_update round_double 0 0 None centred_store = Some (Inr centred_store)"
proof -
  have fe: "focus_entity (view_heap following_store 0)" "focus_entity (view_heap centred_store 0)"
    by (simp_all add: following_store_def centred_store_def example_view_def)
  have fp: "focus_position (view_heap following_store 0) following_store = Inr (900, 800)"
    "focus_position (view_heap centred_store 0) centred_store = Inr (900, 800)"
    by (simp_all add: focus_position_def following_store_def centred_store_def
        example_view_def example_store_def)
  have l1: "clamp_if_locked round_double (view_heap following_store 0) following_store
      (focus_distance round_double (view_heap following_store 0) (900, 800)) = Inr (- 500, - 500)"
    by (simp add: clamp_if_locked_unassigned lock_scroll_def focus_distance_def
        following_store_def example_view_def example_store_def example_map_def round_double_eval)
  have l2: "clamp_if_locked round_double (view_heap centred_store 0) centred_store
      (focus_distance round_double (view_heap centred_store 0) (900, 800)) = Inr (1 / 4, 0)"
    by (simp add: clamp_if_locked_unassigned lock_scroll_def focus_distance_def
        centred_store_def example_view_def example_store_def example_map_def round_double_eval)
  have w: "\<not> force_camera_update (view_heap following_store 0) \<or> no_view_rendered following_store"
    "\<not> force_camera_update (view_heap centred_store 0) \<or> no_view_rendered centred_store"
    by (simp_all add: following_store_def centred_store_def example_view_def)
  have c: "camera_pos (view_heap following_store 0) = (0, 0)"
    by (simp add: following_store_def example_view_def)
  have r: "round_double (\<bar>- 500\<bar> + \<bar>- 500\<bar>) = 1000" "round_double (- 500) = - 500"
    "round_double (\<bar>1 / 4\<bar> + \<bar>0\<bar>) = 1 / 4"
    by (simp_all add: round_double_eval)
  from update_dead_zone [OF fe(1) fp(1) l1 w(1), of 0 None]
    update_dead_zone [OF fe(2) fp(2) l2 w(2), of 0 None]
  show ?thesis
    unfolding r c by (auto simp: camera_after_def r)
qed

section \<open>The attribute \<open>lock_scroll\<close>\<close>

text \<open>
  C2, as stated, fails: the guard is not always true. After the assignment
  \<open>view.lock_scroll = False\<close> the read \<open>self.lock_scroll\<close> yields \<open>False\<close>, and a drag by
  \<open>(5, 0)\<close>, which the clamp function would reduce to \<open>(0, 0)\<close>, moves the camera to
  \<open>(5, 0)\<close>.
\<close>

theorem lock_scroll_assigned_false_counterexample:
  "self_lock_scroll (view_heap unlocked_store 0) = Inr (BoolVal False) \<and>
   \<not> truthy (BoolVal False) \<and>
   lock_scroll round_double (view_heap unlocked_store 0) unlocked_store (5, 0) = Inr (0, 0) \<and>
   camera_after 0 (on_touch_move round_double 0 0 (5, 0) unlocked_store) = Some (Inr (5, 0))"
  by (simp add: self_lock_scroll_def class_dict_def GameView_body_def unlocked_store_def
      example_store_def example_view_def example_map_def lock_scroll_def on_touch_move_def
      lock_scroll_and_currentmap_def result_bind_def run_bind_def camera_pos_iadd.simps
      on_camera_pos.simps camera_after_def round_double_eval)

text \<open>
  C2 (amended): in the class namespace of \<open>GameView\<close> the name \<open>lock_scroll\<close> is bound to
  the method, not to the boolean property declared earlier in the class body, whatever
  value the property is declared with. So on every view to which no attribute
  \<open>lock_scroll\<close> has been assigned, \<open>self.lock_scroll\<close> is a bound method, which is true,
  and the guard never skips the clamp function: every \<open>update\<close> with \<open>focus_entity\<close> passes
  the computed delta to \<open>lock_scroll\<close>, and so does every drag beyond the threshold and
  every resize when the view has a world and the world a current map.
\<close>

theorem lock_scroll_guard_true_unless_assigned:
  "class_dict GameView_body ''lock_scroll'' = Some Function \<and>
   (\<forall>b. class_dict (GameView_body[1 := (''lock_scroll'', BooleanProperty b)]) ''lock_scroll''
      = Some Function) \<and>
   (\<forall>self. lock_scroll_attr self = None \<longrightarrow>
      (\<exists>guard. self_lock_scroll self = Inr guard \<and> truthy guard)) \<and>
   (\<forall>rnd self st d. lock_scroll_attr self = None \<longrightarrow>
      clamp_if_locked rnd self st d = lock_scroll rnd self st d) \<and>
   (\<forall>rnd depth self dt st. lock_scroll_attr (view_heap st self) = None \<longrightarrow>
      GameView_update rnd depth self dt st =
        (if focus_entity (view_heap st self) then
           (case focus_position (view_heap st self) st of
              Inl e \<Rightarrow> Some (Inl e)
            | Inr position_data \<Rightarrow>
                (case lock_scroll rnd (view_heap st self) st
                        (focus_distance rnd (view_heap st self) position_data) of
                   Inl e \<Rightarrow> Some (Inl e)
                 | Inr (dist_x, dist_y) \<Rightarrow>
                     if rnd (\<bar>dist_x\<bar> + \<bar>dist_y\<bar>) \<ge> 1 then
                       run_bind (camera_pos_iadd rnd depth 0 dist_x self st)
                         (\<lambda>st. camera_pos_iadd rnd depth 1 dist_y self st)
                     else Some (Inr st)))
         else Some (Inr st))) \<and>
   (\<forall>rnd depth self touch st.
      lock_scroll_attr (view_heap st self) = None \<and>
      do_scroll (view_heap st self) \<and> rnd (\<bar>fst touch\<bar> + \<bar>snd touch\<bar>) > 2 \<and>
      gameworld (view_heap st self) \<noteq> None \<and> currentmap st \<noteq> None \<longrightarrow>
      on_touch_move rnd depth self touch st =
        (case lock_scroll rnd (view_heap st self)
                (st\<lparr>stdout := stdout st @ [''doing scroll'']\<rparr>) touch of
           Inl e \<Rightarrow> Some (Inl e)
         | Inr (dist_x, dist_y) \<Rightarrow>
             run_bind
               (camera_pos_iadd rnd depth 0 dist_x self
                  (st\<lparr>stdout := stdout st @ [''doing scroll'']\<rparr>))
               (\<lambda>st. camera_pos_iadd rnd depth 1 dist_y self st))) \<and>
   (\<forall>rnd depth self st.
      lock_scroll_attr (view_heap st self) = None \<and>
      gameworld (view_heap st self) \<noteq> None \<and> currentmap st \<noteq> None \<longrightarrow>
      on_size rnd depth self st =
        (case lock_scroll rnd (view_heap st self) st (0, 0) of
           Inl e \<Rightarrow> Some (Inl e)
         | Inr (dist_x, dist_y) \<Rightarrow>
             run_bind (camera_pos_iadd rnd depth 0 dist_x self st)
               (\<lambda>st. camera_pos_iadd rnd depth 1 dist_y self st)))"
proof (intro conjI allI impI)
  show "class_dict GameView_body ''lock_scroll'' = Some Function"
    by (simp add: class_dict_def GameView_body_def)
  show "class_dict (GameView_body[1 := (''lock_scroll'', BooleanProperty b)]) ''lock_scroll''
      = Some Function" for b
    by (simp add: class_dict_def GameView_body_def)
  show "\<exists>guard. self_lock_scroll self = Inr guard \<and> truthy guard"
    if "lock_scroll_attr self = None" for self
    using that by (simp add: self_lock_scroll_unassigned)
  show "clamp_if_locked rnd self st d = lock_scroll rnd self st d"
    if "lock_scroll_attr self = None" for rnd self st d
    using that by (rule clamp_if_locked_unassigned)
  show "GameView_update rnd depth self dt st =
        (if focus_entity (view_heap st self) then
           (case focus_position (view_heap st self) st of
              Inl e \<Rightarrow> Some (Inl e)
            | Inr position_data \<Rightarrow>
                (case lock_scroll rnd (view_heap st self) st
                        (focus_distance rnd (view_heap st self) position_data) of
                   Inl e \<Rightarrow> Some (Inl e)
                 | Inr (dist_x, dist_y) \<Rightarrow>
                     if rnd (\<bar>dist_x\<bar> + \<bar>dist_y\<bar>) \<ge> 1 then
                       run_bind (camera_pos_iadd rnd depth 0 dist_x self st)
                         (\<lambda>st. camera_pos_iadd rnd depth 1 dist_y self st)
                     else Some (Inr st)))
         else Some (Inr st))"
    if "lock_scroll_attr (view_heap st self) = None" for rnd depth self dt st
    using that by (simp add: GameView_update.simps clamp_if_locked_unassigned split: sum.splits)
  show "on_touch_move rnd depth self touch st =
        (case lock_scroll rnd (view_heap st self)
                (st\<lparr>stdout := stdout st @ [''doing scroll'']\<rparr>) touch of
           Inl e \<Rightarrow> Some (Inl e)
         | Inr (dist_x, dist_y) \<Rightarrow>
             run_bind
               (camera_pos_iadd rnd depth 0 dist_x self
                  (st\<lparr>stdout := stdout st @ [''doing scroll'']\<rparr>))
               (\<lambda>st. camera_pos_iadd rnd depth 1 dist_y self st))"
    if "lock_scroll_attr (view_heap st self) = None \<and>
      do_scroll (view_heap st self) \<and> rnd (\<bar>fst touch\<bar> + \<bar>snd touch\<bar>) > 2 \<and>
      gameworld (view_heap st self) \<noteq> None \<and> currentmap st \<noteq> None" for rnd depth self touch st
    using that
    by (auto simp: on_touch_move_def lock_scroll_and_currentmap_def self_lock_scroll_unassigned
        call_self_lock_scroll_def result_bind_def Let_def)
  show "on_size rnd depth self st =
        (case lock_scroll rnd (view_heap st self) st (0, 0) of
           Inl e \<Rightarrow> Some (Inl e)
         | Inr (dist_x, dist_y) \<Rightarrow>
             run_bind (camera_pos_iadd rnd depth 0 dist_x self st)
               (\<lambda>st. camera_pos_iadd rnd depth 1 dist_y self st))"
    if "lock_scroll_attr (view_heap st self) = None \<and>
      gameworld (view_heap st self) \<noteq> None \<and> currentmap st \<noteq> None" for rnd depth self st
    using that
    by (auto simp: on_size_def lock_scroll_and_currentmap_def self_lock_scroll_unassigned
        call_self_lock_scroll_def result_bind_def Let_def)
qed

theorem lock_scroll_guard_true_unless_assigned_witness:
  "camera_after 0 (on_touch_move round_double 0 0 (5, 0) scrolling_store) = Some (Inr (0, 0))"
proof -
  let ?st = "scrolling_store\<lparr>stdout := stdout scrolling_store @ [''doing scroll'']\<rparr>"
  have h: "lock_scroll_attr (view_heap scrolling_store 0) = None \<and>
      do_scroll (view_heap scrolling_store 0) \<and>
      round_double (\<bar>fst (5::real, 0::real)\<bar> + \<bar>snd (5::real, 0::real)\<bar>) > 2 \<and>
      gameworld (view_heap scrolling_store 0) \<noteq> None \<and> currentmap scrolling_store \<noteq> None"
    by (simp add: scrolling_store_def example_view_def example_store_def round_double_eval)
  from lock_scroll_guard_true_unless_assigned have
    "\<forall>rnd depth self touch st.
      lock_scroll_attr (view_heap st self) = None \<and>
      do_scroll (view_heap st self) \<and> rnd (\<bar>fst touch\<bar> + \<bar>snd touch\<bar>) > 2 \<and>
      gameworld (view_heap st self) \<noteq> None \<and> currentmap st \<noteq> None \<longrightarrow>
      on_touch_move rnd depth self touch st =
        (case lock_scroll rnd (view_heap st self)
                (st\<lparr>stdout := stdout st @ [''doing scroll'']\<rparr>) touch of
           Inl e \<Rightarrow> Some (Inl e)
         | Inr (dist_x, dist_y) \<Rightarrow>
             run_bind
               (camera_pos_iadd rnd depth 0 dist_x self
                  (st\<lparr>stdout := stdout st @ [''doing scroll'']\<rparr>))
               (\<lambda>st. camera_pos_iadd rnd depth 1 dist_y self st))"
    by blast
  then have m: "on_touch_move round_double 0 0 (5, 0) scrolling_store =
        (case lock_scroll round_double (view_heap scrolling_store 0) ?st (5, 0) of
           Inl e \<Rightarrow> Some (Inl e)
         | Inr (dist_x, dist_y) \<Rightarrow>
             run_bind (camera_pos_iadd round_double 0 0 dist_x 0 ?st)
               (\<lambda>st. camera_pos_iadd round_double 0 1 dist_y 0 st))"
    using h by blast
  have c: "lock_scroll round_double (view_heap scrolling_store 0) ?st (5, 0) = Inr (0, 0)"
    by (simp add: lock_scroll_def scrolling_store_def example_view_def example_store_def
        example_map_def round_double_eval)
  show ?thesis
    unfolding m c
    by (simp add: run_bind_def camera_pos_iadd.simps on_camera_pos.simps camera_after_def
        scrolling_store_def example_view_def example_store_def round_double_eval)
qed

end
